theory Spec2Isabelle
  imports Main "HOL-Library.AList"
begin

section \<open>Tokeniser (lib/tokeniser.ts): definitions\<close>

text \<open>
  Strings are lists of characters. The source works on UTF-16 code units; the model
  works on \<^typ>\<open>char\<close>, so the two line terminators U+2028 and U+2029, which the
  regular expression dot also excludes, have no counterpart here.
\<close>

definition TAB :: char where "TAB = CHR 0x09"

definition LF :: char where "LF = CHR 0x0A"

definition CR :: char where "CR = CHR 0x0D"

definition DQUOTE :: char where "DQUOTE = CHR 0x22"

text \<open>The class \<^verbatim>\<open>[\t\n\r ]\<close>.\<close>

definition whitespaceChars :: string where
  "whitespaceChars = [TAB, LF, CR, CHR '' '']"

text \<open>The class \<^verbatim>\<open>[0-9]\<close>.\<close>

definition digitChars :: string where
  "digitChars = ''0123456789''"

text \<open>The class \<^verbatim>\<open>[0-7]\<close>.\<close>

definition octalChars :: string where
  "octalChars = ''01234567''"

text \<open>The class \<^verbatim>\<open>[0-9A-Fa-f]\<close>.\<close>

definition hexChars :: string where
  "hexChars = ''0123456789ABCDEFabcdef''"

text \<open>The class \<^verbatim>\<open>[A-Za-z]\<close>.\<close>

definition letterChars :: string where
  "letterChars = ''ABCDEFGHIJKLMNOPQRSTUVWXYZabcdefghijklmnopqrstuvwxyz''"

text \<open>The class \<^verbatim>\<open>[0-9A-Z_a-z-]\<close>.\<close>

definition identifierChars :: string where
  "identifierChars = digitChars @ letterChars @ ''_-''"

text \<open>The class \<^verbatim>\<open>[-0-9.A-Z_a-z]\<close> of the dispatch in \<^verbatim>\<open>tokenise\<close>.\<close>

definition tokenStartChars :: string where
  "tokenStartChars = ''-'' @ digitChars @ ''.'' @ letterChars @ ''_''"

text \<open>The number of leading characters of \<open>s\<close> in the class \<open>cs\<close>: a greedy \<^verbatim>\<open>[cs]*\<close>.\<close>

definition span :: "string \<Rightarrow> string \<Rightarrow> nat" where
  "span cs s = length (takeWhile (\<lambda>c. c \<in> set cs) s)"

text \<open>An optional single character of the class \<open>cs\<close>: \<^verbatim>\<open>[cs]?\<close>, 0 or 1.\<close>

definition optional :: "string \<Rightarrow> string \<Rightarrow> nat" where
  "optional cs s = (case s of [] \<Rightarrow> 0 | c # _ \<Rightarrow> if c \<in> set cs then 1 else 0)"

text \<open>Whether \<open>s\<close> starts with a character of the class \<open>cs\<close>.\<close>

definition startsIn :: "string \<Rightarrow> string \<Rightarrow> bool" where
  "startsIn cs s = (case s of [] \<Rightarrow> False | c # _ \<Rightarrow> c \<in> set cs)"

text \<open>
  Each matcher takes the input from \<^verbatim>\<open>lastIndex\<close> on and returns the length of the
  match (\<^verbatim>\<open>result[0].length\<close>), or \<open>None\<close> when \<^verbatim>\<open>exec\<close> returns null. None of the
  expressions looks behind the cursor. Quantifiers are greedy; an alternative or a
  shorter repetition is tried only when what follows fails, and in each expression below
  what follows a greedy class either always succeeds or starts with a character outside
  the class, so the greedy length is the one the backtracking matcher ends with.
\<close>

text \<open>\<^verbatim>\<open>[Ee][-+]?[0-9]+\<close>\<close>

definition re_exponent :: "string \<Rightarrow> nat option" where
  "re_exponent s =
     (case s of
        [] \<Rightarrow> None
      | c # r \<Rightarrow>
          if c \<in> set ''Ee'' then
            (let sg = optional ''-+'' r;
                 d = span digitChars (drop sg r)
             in if d = 0 then None else Some (1 + sg + d))
          else None)"

text \<open>An optional exponent: \<^verbatim>\<open>([Ee][-+]?[0-9]+)?\<close>.\<close>

definition re_exponent_opt :: "string \<Rightarrow> nat" where
  "re_exponent_opt s = (case re_exponent s of None \<Rightarrow> 0 | Some e \<Rightarrow> e)"

text \<open>
  \<^verbatim>\<open>-?(?=[0-9]*\.|[0-9]+[eE])(([0-9]+\.[0-9]*|[0-9]*\.[0-9]+)([Ee][-+]?[0-9]+)?|[0-9]+[Ee][-+]?[0-9]+)\<close>
\<close>

definition re_decimal :: "string \<Rightarrow> nat option" where
  "re_decimal s =
     (let m = optional ''-'' s;
          s1 = drop m s;
          d1 = span digitChars s1;
          s2 = drop d1 s1;
          dot = startsIn ''.'' s2;
          d2 = span digitChars (drop 1 s2);
          s3 = drop (1 + d2) s2
      in if \<not> (dot \<or> (0 < d1 \<and> startsIn ''eE'' s2)) then None
         else if dot \<and> 0 < d1 then Some (m + d1 + 1 + d2 + re_exponent_opt s3)
         else if dot \<and> 0 < d2 then Some (m + d1 + 1 + d2 + re_exponent_opt s3)
         else if 0 < d1 then
           (case re_exponent s2 of None \<Rightarrow> None | Some e \<Rightarrow> Some (m + d1 + e))
         else None)"

text \<open>\<^verbatim>\<open>-?(0([Xx][0-9A-Fa-f]+|[0-7]*)|[1-9][0-9]*)\<close>\<close>

definition re_integer :: "string \<Rightarrow> nat option" where
  "re_integer s =
     (let m = optional ''-'' s
      in case drop m s of
           [] \<Rightarrow> None
         | c # r \<Rightarrow>
             if c = CHR ''0'' then
               (let h = (if startsIn ''Xx'' r then span hexChars (drop 1 r) else 0)
                in if 0 < h then Some (m + 1 + 1 + h)
                   else Some (m + 1 + span octalChars r))
             else if c \<in> set ''123456789'' then Some (m + 1 + span digitChars r)
             else None)"

text \<open>\<^verbatim>\<open>[_-]?[A-Za-z][0-9A-Z_a-z-]*\<close>\<close>

definition re_identifier :: "string \<Rightarrow> nat option" where
  "re_identifier s =
     (let p = optional ''_-'' s
      in case drop p s of
           [] \<Rightarrow> None
         | c # r \<Rightarrow>
             if c \<in> set letterChars then Some (p + 1 + span identifierChars r)
             else None)"

text \<open>\<^verbatim>\<open>"[^"]*"\<close>\<close>

definition re_string :: "string \<Rightarrow> nat option" where
  "re_string s =
     (case s of
        [] \<Rightarrow> None
      | c # r \<Rightarrow>
          if c = DQUOTE then
            (let n = length (takeWhile (\<lambda>x. x \<noteq> DQUOTE) r)
             in if n < length r then Some (1 + n + 1) else None)
          else None)"

text \<open>\<^verbatim>\<open>[\t\n\r ]+\<close>\<close>

definition re_whitespace :: "string \<Rightarrow> nat option" where
  "re_whitespace s = (let n = span whitespaceChars s in if n = 0 then None else Some n)"

text \<open>
  \<^verbatim>\<open>([^*]|\*[^/])*\*\/\<close>, the body and end of a block comment. The two alternatives of
  the loop and the closing \<^verbatim>\<open>*/\<close> exclude one another on the next two characters, so
  the match is found without backtracking.
\<close>

fun re_block_comment_rest :: "string \<Rightarrow> nat option" where
  "re_block_comment_rest [] = None"
| "re_block_comment_rest (c # r) =
     (if c \<noteq> CHR ''*'' then map_option (\<lambda>n. 1 + n) (re_block_comment_rest r)
      else (case r of
              [] \<Rightarrow> None
            | d # r' \<Rightarrow>
                if d \<noteq> CHR ''/'' then map_option (\<lambda>n. 2 + n) (re_block_comment_rest r')
                else Some 2))"

text \<open>
  One round of the comment loop: \<^verbatim>\<open>\/(\/.*|\*([^*]|\*[^/])*\*\/)[\t\n\r ]*\<close>. The dot
  matches every character but a line terminator.
\<close>

definition re_comment_unit :: "string \<Rightarrow> nat option" where
  "re_comment_unit s =
     (case s of
        c # d # r \<Rightarrow>
          if c = CHR ''/'' \<and> d = CHR ''/'' then
            (let n = length (takeWhile (\<lambda>x. x \<noteq> LF \<and> x \<noteq> CR) r)
             in Some (2 + n + span whitespaceChars (drop n r)))
          else if c = CHR ''/'' \<and> d = CHR ''*'' then
            (case re_block_comment_rest r of
               None \<Rightarrow> None
             | Some n \<Rightarrow> Some (2 + n + span whitespaceChars (drop n r)))
          else None
      | _ \<Rightarrow> None)"

text \<open>Further rounds of the comment loop, as many as match.\<close>

function re_comment_more :: "string \<Rightarrow> nat" where
  "re_comment_more s =
     (case re_comment_unit s of
        None \<Rightarrow> 0
      | Some n \<Rightarrow> n + re_comment_more (drop n s))"
  by pat_completeness auto

termination
  by (relation "measure length")
     (auto split: list.splits if_splits option.splits simp: re_comment_unit_def Let_def)

declare re_comment_more.simps [simp del]

text \<open>\<^verbatim>\<open>((\/(\/.*|\*([^*]|\*[^/])*\*\/)[\t\n\r ]*)+)\<close>\<close>

definition re_comment :: "string \<Rightarrow> nat option" where
  "re_comment s =
     (case re_comment_unit s of
        None \<Rightarrow> None
      | Some n \<Rightarrow> Some (n + re_comment_more (drop n s)))"

text \<open>\<^verbatim>\<open>[^\t\n\r 0-9A-Za-z]\<close>\<close>

definition re_other :: "string \<Rightarrow> nat option" where
  "re_other s =
     (case s of
        [] \<Rightarrow> None
      | c # _ \<Rightarrow>
          if c \<notin> set (whitespaceChars @ digitChars @ letterChars) then Some 1 else None)"

text \<open>The table \<^verbatim>\<open>tokenRe\<close>; the tokeniser only asks for the seven names below.\<close>

definition tokenRe :: "string \<Rightarrow> string \<Rightarrow> nat option" where
  "tokenRe ty =
     (if ty = ''decimal'' then re_decimal
      else if ty = ''integer'' then re_integer
      else if ty = ''identifier'' then re_identifier
      else if ty = ''string'' then re_string
      else if ty = ''whitespace'' then re_whitespace
      else if ty = ''comment'' then re_comment
      else if ty = ''other'' then re_other
      else (\<lambda>_. None))"

definition typeNameKeywords :: "string list" where
  "typeNameKeywords =
     [''ArrayBuffer'', ''DataView'', ''Int8Array'', ''Int16Array'', ''Int32Array'',
      ''Uint8Array'', ''Uint16Array'', ''Uint32Array'', ''Uint8ClampedArray'',
      ''Float32Array'', ''Float64Array'', ''any'', ''object'', ''symbol'']"

definition stringTypes :: "string list" where
  "stringTypes = [''ByteString'', ''DOMString'', ''USVString'']"

definition argumentNameKeywords :: "string list" where
  "argumentNameKeywords =
     [''async'', ''attribute'', ''callback'', ''const'', ''constructor'', ''deleter'',
      ''dictionary'', ''enum'', ''getter'', ''includes'', ''inherit'', ''interface'',
      ''iterable'', ''maplike'', ''namespace'', ''partial'', ''required'', ''setlike'',
      ''setter'', ''static'', ''stringifier'', ''typedef'', ''unrestricted'']"

definition nonRegexTerminals :: "string list" where
  "nonRegexTerminals =
     [''-Infinity'', ''FrozenArray'', ''Infinity'', ''NaN'', ''Promise'', ''boolean'',
      ''byte'', ''double'', ''false'', ''float'', ''long'', ''mixin'', ''null'', ''octet'',
      ''optional'', ''or'', ''readonly'', ''record'', ''sequence'', ''short'', ''true'',
      ''unsigned'', ''void'']
     @ argumentNameKeywords @ stringTypes @ typeNameKeywords"

definition punctuations :: "string list" where
  "punctuations =
     [''('', '')'', '','', ''...'', '':'', '';'', ''<'', ''='', ''>'', ''?'', ''['', '']'',
      ''{'', ''}'']"

definition reserved :: "string list" where
  "reserved = [''_constructor'', ''toString'', ''_toString'']"

text \<open>\<^verbatim>\<open>unescape\<close> of productions/helpers.ts: drops one leading underscore.\<close>

definition unescape :: "string \<Rightarrow> string" where
  "unescape identifier = (case identifier of c # r \<Rightarrow> if c = CHR ''_'' then r else identifier | [] \<Rightarrow> identifier)"

text \<open>
  The interface \<^verbatim>\<open>TokeniserToken\<close>. The field \<^verbatim>\<open>value\<close> is called \<open>lexeme\<close>, the
  word the specification uses for it. \<^verbatim>\<open>line\<close> and \<^verbatim>\<open>index\<close> are optional fields:
  \<open>None\<close> is a token object that has none.
\<close>

record TokeniserToken =
  type :: string
  lexeme :: string
  trivia :: string
  line :: "nat option"
  index :: "int option"

text \<open>
  What the code throws. \<^verbatim>\<open>syntaxError\<close> (lib/error.ts) is not among the sources: a
  \<open>WebIDLParseError\<close> records the two arguments that it is given and that the claims
  speak of, the position in the token vector and the bare message. \<open>TypeError\<close> is what
  reading a property of \<^verbatim>\<open>undefined\<close> throws.
\<close>

datatype error =
    WebIDLParseError nat string
  | Error string
  | TypeError

text \<open>
  The local variables of \<^verbatim>\<open>tokenise\<close>: \<^verbatim>\<open>tokens\<close>, \<^verbatim>\<open>lastCharIndex\<close>,
  \<^verbatim>\<open>trivia\<close>, \<^verbatim>\<open>line\<close> and \<^verbatim>\<open>index\<close>; \<open>var_\<close> sets them apart from the
  fields of tokens and nodes that have the same names. \<^verbatim>\<open>index\<close> is an integer: the
  code decrements it before it increments it.
\<close>

record tokenise_vars =
  var_tokens :: "TokeniserToken list"
  lastCharIndex :: nat
  var_trivia :: string
  var_line :: nat
  var_index :: int

text \<open>
  \<^verbatim>\<open>attemptTokenMatch(type, { noFlushTrivia })\<close>: the result \<^verbatim>\<open>-1\<close> is \<open>None\<close>,
  any other result is the new \<^verbatim>\<open>re.lastIndex\<close>.
\<close>

definition attemptTokenMatch ::
  "string \<Rightarrow> string \<Rightarrow> bool \<Rightarrow> tokenise_vars \<Rightarrow> nat option \<times> tokenise_vars" where
  "attemptTokenMatch str ty noFlushTrivia v =
     (case tokenRe ty (drop (lastCharIndex v) str) of
        Some n \<Rightarrow>
          (Some (lastCharIndex v + n),
           v\<lparr>var_tokens := var_tokens v @
                [\<lparr>type = ty, lexeme = take n (drop (lastCharIndex v) str),
                  trivia = var_trivia v, line = Some (var_line v),
                  index = Some (var_index v)\<rparr>],
             var_trivia := (if noFlushTrivia then var_trivia v else [])\<rparr>)
      | None \<Rightarrow> (None, v))"

text \<open>\<^verbatim>\<open>str.startsWith(punctuation, lastCharIndex)\<close>\<close>

definition startsWith :: "string \<Rightarrow> string \<Rightarrow> nat \<Rightarrow> bool" where
  "startsWith str p pos = (take (length p) (drop pos str) = p)"

text \<open>Lines 131 to 135: whitespace or a comment is matched without flushing the trivia.\<close>

definition match_trivia :: "string \<Rightarrow> tokenise_vars \<Rightarrow> nat option \<times> tokenise_vars" where
  "match_trivia str v =
     (let nextChar = str ! lastCharIndex v
      in if nextChar \<in> set whitespaceChars then attemptTokenMatch str ''whitespace'' True v
         else if nextChar = CHR ''/'' then attemptTokenMatch str ''comment'' True v
         else (None, v))"

text \<open>
  Lines 148 to 162: the identifier attempt, the reserved identifiers and the keywords.
  \<^verbatim>\<open>tokens[lastIndex]\<close> is read only after a match, when the vector is not empty.
\<close>

definition match_identifier ::
  "string \<Rightarrow> tokenise_vars \<Rightarrow> error + nat option \<times> tokenise_vars" where
  "match_identifier str v =
     (let (result, v1) = attemptTokenMatch str ''identifier'' False v;
          lastIndex = length (var_tokens v1) - 1;
          token = var_tokens v1 ! lastIndex
      in if result \<noteq> None then
           if lexeme token \<in> set reserved then
             Inl (WebIDLParseError lastIndex
                   (unescape (lexeme token) @ '' is a reserved identifier and must not be used.''))
           else if lexeme token \<in> set nonRegexTerminals then
             Inr (result, v1\<lparr>var_tokens := (var_tokens v1)[lastIndex := token\<lparr>type := lexeme token\<rparr>]\<rparr>)
           else Inr (result, v1)
         else Inr (result, v1))"

text \<open>
  Lines 137 to 166. After a trivia match the pushed token is popped again, its text is
  appended to the pending trivia and its newlines are counted; otherwise the number, the
  identifier or the string is attempted.
\<close>

definition match_token ::
  "string \<Rightarrow> nat option \<times> tokenise_vars \<Rightarrow> error + nat option \<times> tokenise_vars" where
  "match_token str rv =
     (let (result, v) = rv;
          nextChar = str ! lastCharIndex v
      in if result \<noteq> None then
           (let currentTrivia = lexeme (last (var_tokens v))
            in Inr (result,
                 v\<lparr>var_tokens := butlast (var_tokens v),
                   var_line := var_line v + length (filter (\<lambda>c. c = LF) currentTrivia),
                   var_trivia := var_trivia v @ currentTrivia,
                   var_index := var_index v - 1\<rparr>))
         else if nextChar \<in> set tokenStartChars then
           (let (result1, v1) = attemptTokenMatch str ''decimal'' False v;
                (result2, v2) =
                   (if result1 = None then attemptTokenMatch str ''integer'' False v1
                    else (result1, v1))
            in if result2 = None then match_identifier str v2 else Inr (result2, v2))
         else if nextChar = DQUOTE then Inr (attemptTokenMatch str ''string'' False v)
         else Inr (result, v))"

text \<open>
  Lines 168 to 182: the punctuation loop. It runs in every round, whatever was matched
  before, and tests the input at \<^verbatim>\<open>lastCharIndex\<close>, which still is where the round
  started.
\<close>

fun match_punctuation ::
  "string list \<Rightarrow> string \<Rightarrow> nat option \<times> tokenise_vars \<Rightarrow> nat option \<times> tokenise_vars" where
  "match_punctuation [] str rv = rv"
| "match_punctuation (punctuation # rest) str rv =
     (let (result, v) = rv
      in if startsWith str punctuation (lastCharIndex v) then
           (Some (lastCharIndex v + length punctuation),
            v\<lparr>var_tokens := var_tokens v @
                 [\<lparr>type = punctuation, lexeme = punctuation, trivia = var_trivia v,
                   line = Some (var_line v), index = Some (var_index v)\<rparr>],
              var_trivia := [],
              lastCharIndex := lastCharIndex v + length punctuation\<rparr>)
         else match_punctuation rest str rv)"

text \<open>Lines 184 to 192: \<^verbatim>\<open>other\<close> as the last try, then the cursor and the index move on.\<close>

definition match_other :: "string \<Rightarrow> nat option \<times> tokenise_vars \<Rightarrow> error + tokenise_vars" where
  "match_other str rv =
     (let (result, v) = rv;
          (result1, v1) = (if result = None then attemptTokenMatch str ''other'' False v
                           else (result, v))
      in case result1 of
           None \<Rightarrow> Inl (Error ''Token stream not progressing'')
         | Some r \<Rightarrow> Inr (v1\<lparr>lastCharIndex := r, var_index := var_index v1 + 1\<rparr>))"

text \<open>One round of the while loop, lines 128 to 192.\<close>

definition tokenise_round :: "string \<Rightarrow> tokenise_vars \<Rightarrow> error + tokenise_vars" where
  "tokenise_round str v =
     (case match_token str (match_trivia str v) of
        Inl e \<Rightarrow> Inl e
      | Inr rv \<Rightarrow> match_other str (match_punctuation punctuations str rv))"

text \<open>
  The two things a round of the loop can do, stated for the proofs below: append the
  matched text to the pending trivia, or append one token that takes the pending trivia.
\<close>

definition pushed :: "string \<Rightarrow> string \<Rightarrow> nat \<Rightarrow> tokenise_vars \<Rightarrow> TokeniserToken" where
  "pushed str ty n v =
     \<lparr>type = ty, lexeme = take n (drop (lastCharIndex v) str), trivia = var_trivia v,
      line = Some (var_line v), index = Some (var_index v)\<rparr>"

definition add_trivia :: "string \<Rightarrow> nat \<Rightarrow> tokenise_vars \<Rightarrow> tokenise_vars" where
  "add_trivia str n v =
     v\<lparr>lastCharIndex := lastCharIndex v + n,
       var_trivia := var_trivia v @ take n (drop (lastCharIndex v) str),
       var_line := var_line v + length (filter (\<lambda>c. c = LF) (take n (drop (lastCharIndex v) str)))\<rparr>"

definition add_token :: "string \<Rightarrow> string \<Rightarrow> nat \<Rightarrow> tokenise_vars \<Rightarrow> tokenise_vars" where
  "add_token str ty n v =
     v\<lparr>var_tokens := var_tokens v @ [pushed str ty n v],
       var_trivia := [],
       lastCharIndex := lastCharIndex v + n,
       var_index := var_index v + 1\<rparr>"

text \<open>The while loop of lines 127 to 193.\<close>

function tokenise_loop :: "string \<Rightarrow> tokenise_vars \<Rightarrow> error + tokenise_vars" where
  "tokenise_loop str v =
     (if lastCharIndex v < length str then
        (case tokenise_round str v of
           Inl e \<Rightarrow> Inl e
         | Inr v' \<Rightarrow> tokenise_loop str v')
      else Inr v)"
  by pat_completeness auto

text \<open>The variables as lines 122 to 126 initialise them.\<close>

definition tokenise_init :: tokenise_vars where
  "tokenise_init =
     \<lparr>var_tokens = [], lastCharIndex = 0, var_trivia = [], var_line = 1, var_index = 0\<rparr>"

text \<open>
  The variables after at most \<open>k\<close> rounds of the loop: the positions of the cursor at
  which \<^verbatim>\<open>tokenise\<close> looks for a token.
\<close>

fun tokenise_rounds :: "nat \<Rightarrow> string \<Rightarrow> tokenise_vars \<Rightarrow> error + tokenise_vars" where
  "tokenise_rounds 0 str v = Inr v"
| "tokenise_rounds (Suc k) str v =
     (if lastCharIndex v < length str then
        (case tokenise_round str v of
           Inl e \<Rightarrow> Inl e
         | Inr v' \<Rightarrow> tokenise_rounds k str v')
      else Inr v)"

text \<open>\<^verbatim>\<open>tokenise\<close>: the loop from the initial variables, then the \<^verbatim>\<open>eof\<close> token.\<close>

definition tokenise :: "string \<Rightarrow> error + TokeniserToken list" where
  "tokenise str =
     (case tokenise_loop str tokenise_init of
        Inl e \<Rightarrow> Inl e
      | Inr v \<Rightarrow>
          Inr (var_tokens v @
               [\<lparr>type = ''eof'', lexeme = [], trivia = var_trivia v, line = None, index = None\<rparr>]))"

text \<open>The invariant of the loop behind the trivia coverage: tokens and pending trivia spell the input read so far.\<close>

definition covered :: "string \<Rightarrow> tokenise_vars \<Rightarrow> bool" where
  "covered str v \<longleftrightarrow>
     concat (map (\<lambda>t. trivia t @ lexeme t) (var_tokens v)) @ var_trivia v = take (lastCharIndex v) str
     \<and> lastCharIndex v \<le> length str"

text \<open>
  The invariant of the loop behind the token indices: the index variable is the length of
  the vector, every token carries its position and a line no greater than the line
  variable, and the lines never decrease.
\<close>

definition indexed :: "tokenise_vars \<Rightarrow> bool" where
  "indexed v \<longleftrightarrow>
     var_index v = int (length (var_tokens v)) \<and>
     (\<forall>k<length (var_tokens v). index (var_tokens v ! k) = Some (int k) \<and>
        (\<exists>a. line (var_tokens v ! k) = Some a \<and> a \<le> var_line v)) \<and>
     (\<forall>j k. j \<le> k \<and> k < length (var_tokens v) \<longrightarrow>
        (\<exists>a b. line (var_tokens v ! j) = Some a \<and> line (var_tokens v ! k) = Some b \<and> a \<le> b))"

section \<open>Syntax tree nodes and the recursive analyses (lib/validators/helpers.ts): definitions\<close>

text \<open>
  The classes of the syntax tree (productions/base.ts, type.ts, extended-attributes.ts,
  dictionary.ts, typedef.ts, container.ts) and \<^verbatim>\<open>Definitions\<close> (lib/validator.ts) are
  not among the sources; the functions that work on them are. The records below hold the
  fields that those functions read and write.
\<close>

text \<open>
  \<^verbatim>\<open>Base\<close>: every node has \<^verbatim>\<open>tokens\<close>, a dictionary from role names (\<^verbatim>\<open>name\<close>,
  \<^verbatim>\<open>open\<close>, \<^verbatim>\<open>special\<close>, ...) to tokens, here an association list. A role with no
  entry reads as \<^verbatim>\<open>undefined\<close>, and assigning \<^verbatim>\<open>undefined\<close> to a role removes its entry.
\<close>
type_synonym TokenDictionary = "(string \<times> TokeniserToken) list"

definition role :: "TokenDictionary \<Rightarrow> string \<Rightarrow> TokeniserToken option" where
  "role dict r = map_of dict r"

definition assign :: "string \<Rightarrow> TokeniserToken option \<Rightarrow> TokenDictionary \<Rightarrow> TokenDictionary" where
  "assign r tok dict =
     (case tok of None \<Rightarrow> AList.delete r dict | Some t \<Rightarrow> AList.update r t dict)"

record Base =
  tokens :: TokenDictionary

text \<open>An extended attribute; \<^verbatim>\<open>name\<close> is the value of its getter.\<close>
record SimpleExtendedAttribute = Base +
  name :: string

text \<open>
  \<^verbatim>\<open>ExtendedAttributes\<close>: an array of extended attributes (\<open>items\<close>) that has the
  tokens \<^verbatim>\<open>open\<close> and \<^verbatim>\<open>close\<close> of its own.
\<close>
record ExtendedAttributes = Base +
  items :: "SimpleExtendedAttribute list"

text \<open>
  A type reference \<^verbatim>\<open>Type\<close>: \<^verbatim>\<open>union\<close>, \<^verbatim>\<open>idlType\<close> (the key that is looked up in
  \<^verbatim>\<open>defs.unique\<close>), \<^verbatim>\<open>nullable\<close>, \<^verbatim>\<open>generic\<close>, the list \<^verbatim>\<open>subtype\<close> and
  \<^verbatim>\<open>extAttrs\<close>, which \<^verbatim>\<open>type_with_extended_attributes\<close> assigns.
\<close>
datatype IdlType =
  IdlType (union: bool) (idlType: string) (nullable: bool) (generic: string)
    (subtype: "IdlType list") (extAttrs: "ExtendedAttributes option")

text \<open>A member of a dictionary; the analysis reads \<^verbatim>\<open>field.required\<close> only.\<close>
record Field =
  required :: bool

text \<open>
  A definition node. \<open>oid\<close> is the identity of the object: the caches are JavaScript
  Maps keyed by the node itself, so two nodes with equal fields are still two keys.
  \<^verbatim>\<open>idlType\<close> is read of a typedef only; \<^verbatim>\<open>inheritance\<close> is \<open>None\<close> for null
  and for a node that has no such property. \<^verbatim>\<open>members\<close> is \<open>None\<close> for a node that
  has no such property: dictionaries and the other containers have the array, typedefs,
  enums and callbacks do not, and \<^verbatim>\<open>defs.unique\<close> holds nodes of every kind.
\<close>
record Definition =
  oid :: nat
  type :: string
  idlType :: IdlType
  inheritance :: "string option"
  members :: "Field list option"

text \<open>The interface \<^verbatim>\<open>IdlTypeDictionary\<close>.\<close>
record IdlTypeDictionary =
  reference :: IdlType
  dictionary :: Definition

text \<open>
  \<^verbatim>\<open>defs.cache\<close>: two Maps from definition nodes. An entry is absent (\<open>None\<close>), present
  with the value \<^verbatim>\<open>undefined\<close> (\<open>Some None\<close>, the indeterminate state), or present with
  a value.
\<close>
record Cache =
  typedefIncludesDictionary :: "Definition \<rightharpoonup> IdlTypeDictionary option"
  dictionaryIncludesRequiredField :: "Definition \<rightharpoonup> bool option"

text \<open>
  \<^verbatim>\<open>Definitions\<close>: \<^verbatim>\<open>unique\<close>, a finite Map from names to definition nodes, here an
  association list read with \<^const>\<open>map_of\<close>, and \<^verbatim>\<open>cache\<close>.
\<close>
record Definitions =
  unique :: "(string \<times> Definition) list"
  cache :: Cache

text \<open>\<^verbatim>\<open>defs.cache.dictionaryIncludesRequiredField.set(dict, val)\<close>\<close>
definition set_dictionaryIncludesRequiredField ::
  "Definition \<Rightarrow> bool option \<Rightarrow> Definitions \<Rightarrow> Definitions" where
  "set_dictionaryIncludesRequiredField dict val defs =
     defs\<lparr>cache := (cache defs)\<lparr>Cache.dictionaryIncludesRequiredField :=
       (Cache.dictionaryIncludesRequiredField (cache defs))(dict \<mapsto> val)\<rparr>\<rparr>"

text \<open>\<^verbatim>\<open>defs.cache.typedefIncludesDictionary.set(def, val)\<close>\<close>
definition set_typedefIncludesDictionary ::
  "Definition \<Rightarrow> IdlTypeDictionary option \<Rightarrow> Definitions \<Rightarrow> Definitions" where
  "set_typedefIncludesDictionary def val defs =
     defs\<lparr>cache := (cache defs)\<lparr>Cache.typedefIncludesDictionary :=
       (Cache.typedefIncludesDictionary (cache defs))(def \<mapsto> val)\<rparr>\<rparr>"

text \<open>
  Lines 72 to 74 of \<^verbatim>\<open>dictionaryIncludesRequiredField\<close>: whether some member is
  required, stored in the cache and returned. On a node without \<^verbatim>\<open>members\<close> the call
  \<^verbatim>\<open>dict.members.some(...)\<close> throws a \<^verbatim>\<open>TypeError\<close> before anything is stored.
\<close>
definition some_required ::
  "Definition \<Rightarrow> Definitions \<Rightarrow> (error + bool option) \<times> Definitions" where
  "some_required dict defs =
     (case members dict of
        None \<Rightarrow> (Inl TypeError, defs)
      | Some fieldList \<Rightarrow>
          (let result = list_ex required fieldList
           in (Inr (Some result), set_dictionaryIncludesRequiredField dict (Some result) defs)))"

text \<open>
  \<^verbatim>\<open>dictionaryIncludesRequiredField(dict, defs)\<close>. The outcome is \<open>Inr\<close> of what the
  code returns, \<open>None\<close> for \<^verbatim>\<open>undefined\<close>, or \<open>Inl\<close> of what it throws; with it come
  the definitions with the cache as the call leaves it, also when it throws. An error
  thrown by the call on the parent in line 68 passes through the caller.
  \<^verbatim>\<open>if (dict.inheritance)\<close> holds of a string that is neither null nor empty, and
  \<^verbatim>\<open>if (dictionaryIncludesRequiredField(superdict, defs))\<close> of the result \<^verbatim>\<open>true\<close>. The
  two \<^verbatim>\<open>return true\<close> of lines 66 and 69 leave the cache as line 62 set it. A call that
  neither returns nor throws is the value \<open>None\<close>.
\<close>
partial_function (option) dictionaryIncludesRequiredField ::
  "Definition \<Rightarrow> Definitions \<Rightarrow> ((error + bool option) \<times> Definitions) option" where
  "dictionaryIncludesRequiredField dict defs =
     (case Cache.dictionaryIncludesRequiredField (cache defs) dict of
        Some cached \<Rightarrow> Some (Inr cached, defs)
      | None \<Rightarrow>
          (let defs1 = set_dictionaryIncludesRequiredField dict None defs
           in case inheritance dict of
                None \<Rightarrow> Some (some_required dict defs1)
              | Some inh \<Rightarrow>
                  if inh = [] then Some (some_required dict defs1)
                  else
                    (case map_of (unique defs1) inh of
                       None \<Rightarrow> Some (Inr (Some True), defs1)
                     | Some superdict \<Rightarrow>
                         Option.bind (dictionaryIncludesRequiredField superdict defs1)
                           (\<lambda>(outcome, defs2).
                              case outcome of
                                Inl e \<Rightarrow> Some (Inl e, defs2)
                              | Inr r \<Rightarrow>
                                  if r = Some True then Some (Inr (Some True), defs2)
                                  else Some (some_required dict defs2)))))"

text \<open>
  The calls of \<^verbatim>\<open>idlTypeIncludesDictionary\<close>: on a type with the option
  \<^verbatim>\<open>useNullableInner\<close>, and the \<^verbatim>\<open>for\<close> loop of lines 44 to 55 over the subtypes that
  are left.
\<close>
datatype includes_call = OfType IdlType bool | OfSubtypes "IdlType list"

text \<open>
  \<^verbatim>\<open>idlTypeIncludesDictionary\<close>, lines 14 to 56, with its loop. The result is the
  returned \<^verbatim>\<open>IdlTypeDictionary\<close> or \<open>None\<close> for \<^verbatim>\<open>undefined\<close>, with the definitions
  as the call leaves them. After the typedef branch the code falls through to the
  dictionary test and then to the loop; the recursive calls pass no options, so
  \<^verbatim>\<open>useNullableInner\<close> is false in them.
\<close>
partial_function (option) includesDictionary ::
  "includes_call \<Rightarrow> Definitions \<Rightarrow> (IdlTypeDictionary option \<times> Definitions) option" where
  "includesDictionary call defs =
     (case call of
        OfType idlT useNullableInner \<Rightarrow>
          if \<not> union idlT then
            (case map_of (unique defs) (IdlType.idlType idlT) of
               None \<Rightarrow> Some (None, defs)
             | Some def \<Rightarrow>
                 if Definition.type def = ''typedef'' then
                   (case Cache.typedefIncludesDictionary (cache defs) def of
                      Some cached \<Rightarrow> Some (cached, defs)
                    | None \<Rightarrow>
                        Option.bind
                          (includesDictionary (OfType (Definition.idlType def) False)
                             (set_typedefIncludesDictionary def None defs))
                          (\<lambda>(result, defs1).
                             let defs2 = set_typedefIncludesDictionary def result defs1
                             in case result of
                                  Some r \<Rightarrow>
                                    Some (Some \<lparr>reference = idlT, dictionary = dictionary r\<rparr>, defs2)
                                | None \<Rightarrow>
                                    if Definition.type def = ''dictionary''
                                       \<and> (useNullableInner \<or> \<not> nullable idlT)
                                    then Some (Some \<lparr>reference = idlT, dictionary = def\<rparr>, defs2)
                                    else includesDictionary (OfSubtypes (subtype idlT)) defs2))
                 else if Definition.type def = ''dictionary''
                         \<and> (useNullableInner \<or> \<not> nullable idlT)
                 then Some (Some \<lparr>reference = idlT, dictionary = def\<rparr>, defs)
                 else includesDictionary (OfSubtypes (subtype idlT)) defs)
          else includesDictionary (OfSubtypes (subtype idlT)) defs
      | OfSubtypes [] \<Rightarrow> Some (None, defs)
      | OfSubtypes (sub # rest) \<Rightarrow>
          Option.bind (includesDictionary (OfType sub False) defs)
            (\<lambda>(result, defs1).
               case result of
                 Some r \<Rightarrow>
                   if union sub then Some (result, defs1)
                   else Some (Some \<lparr>reference = sub, dictionary = dictionary r\<rparr>, defs1)
               | None \<Rightarrow> includesDictionary (OfSubtypes rest) defs1))"

text \<open>\<^verbatim>\<open>idlTypeIncludesDictionary(idlType, defs, { useNullableInner })\<close>\<close>
definition idlTypeIncludesDictionary ::
  "IdlType \<Rightarrow> Definitions \<Rightarrow> bool \<Rightarrow> (IdlTypeDictionary option \<times> Definitions) option" where
  "idlTypeIncludesDictionary idlT defs useNullableInner =
     includesDictionary (OfType idlT useNullableInner) defs"

declare dictionaryIncludesRequiredField.simps [code]
declare includesDictionary.simps [code]

text \<open>
  Measures for the proofs that the analyses return: the number of definitions of
  \<^verbatim>\<open>unique\<close> with no entry in the typedef cache, and the size of a call.
\<close>
definition pending :: "Definitions \<Rightarrow> nat" where
  "pending defs = card (snd ` set (unique defs) - dom (Cache.typedefIncludesDictionary (cache defs)))"

fun call_size :: "includes_call \<Rightarrow> nat" where
  "call_size (OfType t b) = 2 * size t"
| "call_size (OfSubtypes ts) = 2 * size_list size ts + 1"

text \<open>A call returns, and leaves \<^verbatim>\<open>unique\<close> as it was and no cache entry removed.\<close>
definition returns :: "includes_call \<Rightarrow> Definitions \<Rightarrow> bool" where
  "returns call defs \<longleftrightarrow>
     (\<exists>r defs'. includesDictionary call defs = Some (r, defs') \<and> unique defs' = unique defs \<and>
        dom (Cache.typedefIncludesDictionary (cache defs))
          \<subseteq> dom (Cache.typedefIncludesDictionary (cache defs')))"

text \<open>
  Definitions for the examples. \<^verbatim>\<open>dictionary P { required long x; }; dictionary D : P { };
  dictionary E : Missing { }; typedef D T; typedef B A; typedef A B; dictionary X : Y { };
  dictionary Y : X { }; dictionary F : T { };\<close> and an empty cache. \<open>dictionaries\<close> is
  the same with the dictionaries \<^verbatim>\<open>P\<close>, \<^verbatim>\<open>D\<close>, \<^verbatim>\<open>X\<close> and \<^verbatim>\<open>Y\<close> only.
\<close>
definition named :: "string \<Rightarrow> IdlType" where
  "named n = IdlType False n False [] [] None"

definition dictP :: Definition where
  "dictP = \<lparr>oid = 1, type = ''dictionary'', idlType = named [],
            inheritance = None, members = Some [\<lparr>required = True\<rparr>]\<rparr>"

definition dictD :: Definition where
  "dictD = \<lparr>oid = 2, type = ''dictionary'', idlType = named [],
            inheritance = Some ''P'', members = Some []\<rparr>"

definition dictE :: Definition where
  "dictE = \<lparr>oid = 3, type = ''dictionary'', idlType = named [],
            inheritance = Some ''Missing'', members = Some []\<rparr>"

definition typedefT :: Definition where
  "typedefT = \<lparr>oid = 4, type = ''typedef'', idlType = named ''D'',
               inheritance = None, members = None\<rparr>"

definition typedefA :: Definition where
  "typedefA = \<lparr>oid = 5, type = ''typedef'', idlType = named ''B'',
               inheritance = None, members = None\<rparr>"

definition typedefB :: Definition where
  "typedefB = \<lparr>oid = 6, type = ''typedef'', idlType = named ''A'',
               inheritance = None, members = None\<rparr>"

definition dictX :: Definition where
  "dictX = \<lparr>oid = 7, type = ''dictionary'', idlType = named [],
            inheritance = Some ''Y'', members = Some []\<rparr>"

definition dictY :: Definition where
  "dictY = \<lparr>oid = 8, type = ''dictionary'', idlType = named [],
            inheritance = Some ''X'', members = Some []\<rparr>"

definition dictF :: Definition where
  "dictF = \<lparr>oid = 9, type = ''dictionary'', idlType = named [],
            inheritance = Some ''T'', members = Some []\<rparr>"

definition exampleDefs :: Definitions where
  "exampleDefs =
     \<lparr>unique = [(''P'', dictP), (''D'', dictD), (''E'', dictE), (''T'', typedefT),
                (''A'', typedefA), (''B'', typedefB), (''X'', dictX), (''Y'', dictY),
                (''F'', dictF)],
      cache = \<lparr>typedefIncludesDictionary = Map.empty,
               dictionaryIncludesRequiredField = Map.empty\<rparr>\<rparr>"

definition dictionaries :: Definitions where
  "dictionaries =
     \<lparr>unique = [(''P'', dictP), (''D'', dictD), (''X'', dictX), (''Y'', dictY)],
      cache = \<lparr>typedefIncludesDictionary = Map.empty,
               dictionaryIncludesRequiredField = Map.empty\<rparr>\<rparr>"

text \<open>Two calls of an analysis, one after the other on the same definitions: the results.\<close>
definition twice ::
  "(Definitions \<Rightarrow> ('r \<times> Definitions) option) \<Rightarrow> Definitions \<Rightarrow> ('r \<times> 'r) option" where
  "twice f defs =
     Option.bind (f defs) (\<lambda>(r1, defs1). Option.bind (f defs1) (\<lambda>(r2, defs2). Some (r1, r2)))"

section \<open>Token cursor and attribute parser (lib/tokeniser.ts, lib/productions/attribute.ts): definitions\<close>

text \<open>
  The class \<^verbatim>\<open>Tokeniser\<close>: the token vector \<^verbatim>\<open>source\<close> and the cursor \<^verbatim>\<open>position\<close>.
\<close>
record Tokeniser =
  source :: "TokeniserToken list"
  position :: nat

text \<open>The constructor: \<^verbatim>\<open>tokenise(idl)\<close> may throw.\<close>
definition new_Tokeniser :: "string \<Rightarrow> error + Tokeniser" where
  "new_Tokeniser idl =
     (case tokenise idl of
        Inl e \<Rightarrow> Inl e
      | Inr toks \<Rightarrow> Inr \<lparr>source = toks, position = 0\<rparr>)"

text \<open>
  \<^verbatim>\<open>tokeniser.error(message)\<close> throws what \<^verbatim>\<open>syntaxError\<close> builds from the source, the
  position and the message.
\<close>
definition Tokeniser_error :: "Tokeniser \<Rightarrow> string \<Rightarrow> error" where
  "Tokeniser_error tokeniser message = WebIDLParseError (position tokeniser) message"

definition probe :: "Tokeniser \<Rightarrow> string \<Rightarrow> bool" where
  "probe tokeniser ty \<longleftrightarrow>
     length (source tokeniser) > position tokeniser \<and>
     TokeniserToken.type (source tokeniser ! position tokeniser) = ty"

text \<open>\<^verbatim>\<open>consume(...candidates)\<close>: the token, or \<open>None\<close> for \<^verbatim>\<open>undefined\<close>, and the cursor.\<close>
fun consume :: "Tokeniser \<Rightarrow> string list \<Rightarrow> TokeniserToken option \<times> Tokeniser" where
  "consume tokeniser [] = (None, tokeniser)"
| "consume tokeniser (ty # candidates) =
     (if \<not> probe tokeniser ty then consume tokeniser candidates
      else (Some (source tokeniser ! position tokeniser),
            tokeniser\<lparr>position := position tokeniser + 1\<rparr>))"

definition unconsume :: "Tokeniser \<Rightarrow> nat \<Rightarrow> Tokeniser" where
  "unconsume tokeniser pos = tokeniser\<lparr>position := pos\<rparr>"

text \<open>
  \<^verbatim>\<open>Type.parse\<close> and \<^verbatim>\<open>ExtendedAttributes.parse\<close> are not among the sources: the
  functions that call them take them as parameters. A parser returns an error, or a node
  (\<open>None\<close> for no node) and the tokeniser as it leaves it.
\<close>
type_synonym 'a parser = "Tokeniser \<Rightarrow> error + 'a \<times> Tokeniser"

record productions =
  Type_parse :: "string \<Rightarrow> IdlType option parser"
  ExtendedAttributes_parse :: "ExtendedAttributes parser"
  SimpleExtendedAttribute_parse :: "SimpleExtendedAttribute option parser"

text \<open>\<^verbatim>\<open>autoParenter(ret).extAttrs = extAttrs\<close> on a type.\<close>
definition set_extAttrs :: "IdlType \<Rightarrow> ExtendedAttributes \<Rightarrow> IdlType" where
  "set_extAttrs t e = IdlType (union t) (IdlType.idlType t) (nullable t) (generic t) (subtype t) (Some e)"

text \<open>\<^verbatim>\<open>type_with_extended_attributes(tokeniser, typeName)\<close> of productions/helpers.ts.\<close>
definition type_with_extended_attributes ::
  "productions \<Rightarrow> string \<Rightarrow> IdlType option parser" where
  "type_with_extended_attributes P typeName tokeniser =
     (case ExtendedAttributes_parse P tokeniser of
        Inl e \<Rightarrow> Inl e
      | Inr (ext, tokeniser1) \<Rightarrow>
          (case Type_parse P typeName tokeniser1 of
             Inl e \<Rightarrow> Inl e
           | Inr (None, tokeniser2) \<Rightarrow> Inr (None, tokeniser2)
           | Inr (Some ret, tokeniser2) \<Rightarrow> Inr (Some (set_extAttrs ret ext), tokeniser2)))"

text \<open>The class \<^verbatim>\<open>Attribute\<close>.\<close>
record Attribute = Base +
  idlType :: IdlType

text \<open>The getter \<^verbatim>\<open>special\<close> of attributes and operations.\<close>
definition special :: "TokenDictionary \<Rightarrow> string" where
  "special toks = (case role toks ''special'' of None \<Rightarrow> [] | Some t \<Rightarrow> lexeme t)"

text \<open>
  \<^verbatim>\<open>Attribute.parse\<close> from the type on, lines 25 to 32: \<open>toks\<close> is the token dictionary
  that lines 8 to 20 have filled.
\<close>
definition Attribute_parse_type ::
  "productions \<Rightarrow> TokenDictionary \<Rightarrow> Attribute option parser" where
  "Attribute_parse_type P toks tokeniser =
     (case type_with_extended_attributes P ''attribute-type'' tokeniser of
        Inl e \<Rightarrow> Inl e
      | Inr (None, tokeniser1) \<Rightarrow> Inl (Tokeniser_error tokeniser1 ''Attribute lacks a type'')
      | Inr (Some idlT, tokeniser1) \<Rightarrow>
          if generic idlT = ''sequence'' \<or> generic idlT = ''record'' then
            Inl (Tokeniser_error tokeniser1 (''Attributes cannot accept '' @ generic idlT @ '' types''))
          else
            (case consume tokeniser1 [''identifier'', ''async'', ''required''] of
               (None, tokeniser2) \<Rightarrow> Inl (Tokeniser_error tokeniser2 ''Attribute lacks a name'')
             | (Some nameToken, tokeniser2) \<Rightarrow>
                 (case consume tokeniser2 ['';''] of
                    (None, tokeniser3) \<Rightarrow>
                      Inl (Tokeniser_error tokeniser3 ''Unterminated attribute, expected `;`'')
                  | (Some termination, tokeniser3) \<Rightarrow>
                      Inr (Some \<lparr>tokens = assign ''termination'' (Some termination)
                                            (assign ''name'' (Some nameToken) toks),
                                  idlType = idlT\<rparr>,
                           tokeniser3))))"

text \<open>
  \<^verbatim>\<open>Attribute.parse\<close> up to the keyword, lines 8 to 24. The option \<^verbatim>\<open>special\<close> is a
  token or \<^verbatim>\<open>undefined\<close>. The result is an error, or \<open>None\<close> with the cursor put back
  where there is no \<^verbatim>\<open>attribute\<close> keyword (line 23 returns nothing), or the token
  dictionary filled so far.
\<close>
definition Attribute_parse_head ::
  "TokeniserToken option \<Rightarrow> bool \<Rightarrow> bool \<Rightarrow> TokenDictionary option parser" where
  "Attribute_parse_head specialOpt noInherit readonly tokeniser =
     (let start_position = position tokeniser;
          toks = assign ''special'' specialOpt [];
          (toks1, tokeniser1) =
             (if specialOpt = None \<and> \<not> noInherit then
                (let (tok, tk) = consume tokeniser [''inherit'']
                 in (assign ''special'' tok toks, tk))
              else (toks, tokeniser))
      in if special toks1 = ''inherit'' \<and> probe tokeniser1 ''readonly'' then
           Inl (Tokeniser_error tokeniser1 ''Inherited attributes cannot be read-only'')
         else
           (let (ro, tokeniser2) = consume tokeniser1 [''readonly''];
                toks2 = assign ''readonly'' ro toks1
            in if readonly \<and> ro = None \<and> probe tokeniser2 ''attribute'' then
                 Inl (Tokeniser_error tokeniser2 ''Attributes must be readonly in this context'')
               else
                 (let (base, tokeniser3) = consume tokeniser2 [''attribute''];
                      toks3 = assign ''base'' base toks2
                  in if base = None then Inr (None, unconsume tokeniser3 start_position)
                     else Inr (Some toks3, tokeniser3))))"

text \<open>\<^verbatim>\<open>Attribute.parse(tokeniser, { special, noInherit, readonly })\<close>, lines 7 to 33.\<close>
definition Attribute_parse ::
  "productions \<Rightarrow> TokeniserToken option \<Rightarrow> bool \<Rightarrow> bool \<Rightarrow> Attribute option parser" where
  "Attribute_parse P specialOpt noInherit readonly tokeniser =
     (case Attribute_parse_head specialOpt noInherit readonly tokeniser of
        Inl e \<Rightarrow> Inl e
      | Inr (None, tokeniser1) \<Rightarrow> Inr (None, tokeniser1)
      | Inr (Some toks, tokeniser1) \<Rightarrow> Attribute_parse_type P toks tokeniser1)"

text \<open>
  Stand-ins for the parsers that are not among the sources, for the examples only: a type
  parser that reads \<^verbatim>\<open>long\<close> or \<^verbatim>\<open>sequence<long>\<close>, a parser of one extended attribute
  \<^verbatim>\<open>name\<close> or \<^verbatim>\<open>name=value\<close>, and a parser of a block \<^verbatim>\<open>[attribute]\<close>.
\<close>
definition example_Type_parse :: "string \<Rightarrow> IdlType option parser" where
  "example_Type_parse typeName tokeniser =
     (case consume tokeniser [''long''] of
        (Some t, tokeniser1) \<Rightarrow> Inr (Some (IdlType False ''long'' False [] [] None), tokeniser1)
      | (None, _) \<Rightarrow>
          (case consume tokeniser [''sequence''] of
             (None, _) \<Rightarrow> Inr (None, tokeniser)
           | (Some t, tokeniser1) \<Rightarrow>
               (case consume tokeniser1 [''<''] of
                  (None, tokeniser2) \<Rightarrow> Inl (Tokeniser_error tokeniser2 ''No opening bracket after sequence'')
                | (Some t2, tokeniser2) \<Rightarrow>
                    (case consume tokeniser2 [''long''] of
                       (None, tokeniser3) \<Rightarrow> Inl (Tokeniser_error tokeniser3 ''Error parsing generic type sequence'')
                     | (Some t3, tokeniser3) \<Rightarrow>
                         (case consume tokeniser3 [''>''] of
                            (None, tokeniser4) \<Rightarrow> Inl (Tokeniser_error tokeniser4 ''Missing closing bracket after sequence'')
                          | (Some t4, tokeniser4) \<Rightarrow>
                              Inr (Some (IdlType False [] False ''sequence''
                                     [IdlType False ''long'' False [] [] None] None),
                                   tokeniser4))))))"

definition example_SimpleExtendedAttribute_parse :: "SimpleExtendedAttribute option parser" where
  "example_SimpleExtendedAttribute_parse tokeniser =
     (case consume tokeniser [''identifier''] of
        (None, _) \<Rightarrow> Inr (None, tokeniser)
      | (Some n, tokeniser1) \<Rightarrow>
          (let (a, tokeniser2) = consume tokeniser1 [''=''];
               (v, tokeniser3) = (if a = None then (None, tokeniser2)
                                  else consume tokeniser2 [''identifier''])
           in Inr (Some \<lparr>tokens = assign ''secondaryName'' v
                                     (assign ''assign'' a (assign ''name'' (Some n) [])),
                         name = lexeme n\<rparr>,
                   tokeniser3)))"

definition example_ExtendedAttributes_parse :: "ExtendedAttributes parser" where
  "example_ExtendedAttributes_parse tokeniser =
     (case consume tokeniser [''[''] of
        (None, _) \<Rightarrow> Inr (\<lparr>tokens = [], items = []\<rparr>, tokeniser)
      | (Some opn, tokeniser1) \<Rightarrow>
          (case example_SimpleExtendedAttribute_parse tokeniser1 of
             Inl e \<Rightarrow> Inl e
           | Inr (None, tokeniser2) \<Rightarrow>
               Inl (Tokeniser_error tokeniser2 ''Found an empty extended attribute'')
           | Inr (Some e, tokeniser2) \<Rightarrow>
               (case consume tokeniser2 ['']''] of
                  (None, tokeniser3) \<Rightarrow>
                    Inl (Tokeniser_error tokeniser3 ''Unexpected closing token of extended attribute'')
                | (Some cls, tokeniser3) \<Rightarrow>
                    Inr (\<lparr>tokens = assign ''close'' (Some cls) (assign ''open'' (Some opn) []),
                          items = [e]\<rparr>,
                         tokeniser3))))"

definition example_productions :: productions where
  "example_productions =
     \<lparr>Type_parse = example_Type_parse,
      ExtendedAttributes_parse = example_ExtendedAttributes_parse,
      SimpleExtendedAttribute_parse = example_SimpleExtendedAttribute_parse\<rparr>"

text \<open>The tokeniser over \<^verbatim>\<open>attribute sequence<long> xs;\<close>, for the examples.\<close>
definition example_tokeniser :: Tokeniser where
  "example_tokeniser =
     (case new_Tokeniser ''attribute sequence<long> xs;'' of
        Inr tokeniser \<Rightarrow> tokeniser
      | Inl e \<Rightarrow> \<lparr>source = [], position = 0\<rparr>)"

section \<open>Validation of operations and interfaces (lib/productions/operation.ts, interface.ts): definitions\<close>

text \<open>
  The deferred edits that diagnostics carry. The code builds the closures
  \<^verbatim>\<open>autofixAddExposedWindow(this)\<close> and \<^verbatim>\<open>autofixConstructor(this, constructor)\<close>; a
  value of this type names the closure and what it captured besides the validated node.
  Calling the first is \<open>autofixAddExposedWindow\<close> below.
\<close>
datatype Autofix =
    AutofixAddExposedWindow
  | AutofixConstructor SimpleExtendedAttribute

text \<open>
  A diagnostic: the arguments \<^verbatim>\<open>token\<close>, \<^verbatim>\<open>ruleName\<close>, \<^verbatim>\<open>message\<close> and
  \<^verbatim>\<open>autofix\<close> that \<^verbatim>\<open>validationError\<close> (lib/error.ts, not among the sources) is called
  with; its second argument is always the validated node. A generator is the list of
  what it yields, in order.
\<close>
record Diagnostic =
  token :: "TokeniserToken option"
  ruleName :: string
  message :: string
  autofix :: "Autofix option"

text \<open>
  A \<^verbatim>\<open>validate(defs)\<close> that is not among the sources is a parameter: it yields
  diagnostics and may write to the caches of \<^verbatim>\<open>defs\<close>.
\<close>
type_synonym 'a validator = "Definitions \<Rightarrow> 'a \<Rightarrow> Diagnostic list \<times> Definitions"

text \<open>\<^verbatim>\<open>for (const x of xs) yield* x.validate(defs)\<close>\<close>
fun validate_each :: "'a validator \<Rightarrow> Definitions \<Rightarrow> 'a list \<Rightarrow> Diagnostic list \<times> Definitions" where
  "validate_each v defs [] = ([], defs)"
| "validate_each v defs (x # xs) =
     (let (d, defs1) = v defs x;
          (ds, defs2) = validate_each v defs1 xs
      in (d @ ds, defs2))"

subsection \<open>Operation (lib/productions/operation.ts)\<close>

text \<open>
  The class \<^verbatim>\<open>Operation\<close>: \<^verbatim>\<open>idlType\<close> is a type or nothing, \<^verbatim>\<open>arguments\<close> a list of
  argument nodes of a class that is not among the sources.
\<close>
record 'arg Operation = Base +
  idlType :: "IdlType option"
  arguments :: "'arg list"

text \<open>The getter \<^verbatim>\<open>name\<close> of an operation, lines 37 to 43.\<close>
definition Operation_name :: "'arg Operation \<Rightarrow> string" where
  "Operation_name op =
     (case role (tokens op) ''name'' of None \<Rightarrow> [] | Some t \<Rightarrow> unescape (lexeme t))"

definition incomplete_op_message :: string where
  "incomplete_op_message =
     ''Regular or static operations must have both a return type and an identifier.''"

text \<open>
  \<^verbatim>\<open>Operation.validate(defs)\<close>, lines 51 to 62. \<^verbatim>\<open>!this.name\<close> holds of the empty
  string.
\<close>
definition Operation_validate ::
  "IdlType validator \<Rightarrow> 'arg validator \<Rightarrow> 'arg Operation validator" where
  "Operation_validate Type_validate Argument_validate defs op =
     (let d1 = (if Operation_name op = [] \<and> special (tokens op) \<in> set [[], ''static''] then
                  [\<lparr>token = role (tokens op) ''open'', ruleName = ''incomplete-op'',
                    message = incomplete_op_message, autofix = None\<rparr>]
                else []);
          (d2, defs1) = (case Operation.idlType op of
                           None \<Rightarrow> ([], defs)
                         | Some t \<Rightarrow> Type_validate defs t);
          (d3, defs2) = validate_each Argument_validate defs1 (arguments op)
      in (d1 @ d2 @ d3, defs2))"

subsection \<open>Interface (lib/productions/interface.ts)\<close>

text \<open>A member of an interface: \<^verbatim>\<open>validate\<close> reads its \<^verbatim>\<open>type\<close> and its tokens.\<close>
record Member = Base +
  type :: string

text \<open>The class \<^verbatim>\<open>Interface\<close>.\<close>
record Interface = Base +
  extAttrs :: ExtendedAttributes
  members :: "Member list"

text \<open>The getter \<^verbatim>\<open>partial\<close>: whether the node has a token \<^verbatim>\<open>partial\<close>.\<close>
definition partial :: "Interface \<Rightarrow> bool" where
  "partial iface \<longleftrightarrow> role (tokens iface) ''partial'' \<noteq> None"

text \<open>
  The validators that \<^verbatim>\<open>Interface.validate\<close> calls and that are not among the sources.
\<close>
record validators =
  ExtendedAttributes_validate :: "ExtendedAttributes validator"
  Container_validate :: "Interface validator"
  checkInterfaceMemberDuplication :: "Interface validator"

definition require_exposed_message :: string where
  "require_exposed_message =
     ''Interfaces must have `[Exposed]` extended attribute. '' @
     ''To fix, add, for example, `[Exposed=Window]`. Please also consider carefully '' @
     ''if your interface should also be exposed in a Worker scope. Refer to the '' @
     ''[WebIDL spec section on Exposed](https://heycam.github.io/webidl/#Exposed) '' @
     ''for more information.''"

definition constructor_member_message :: string where
  "constructor_member_message =
     ''Constructors should now be represented as a `constructor()` operation on the interface '' @
     ''instead of `[Constructor]` extended attribute. Refer to the '' @
     ''[WebIDL spec section on constructor operations](https://heycam.github.io/webidl/#idl-constructors) '' @
     ''for more information.''"

text \<open>\<^verbatim>\<open>Interface.validate(defs)\<close>, lines 46 to 92.\<close>
definition Interface_validate :: "validators \<Rightarrow> Interface validator" where
  "Interface_validate V defs iface =
     (let attrs = items (Interface.extAttrs iface);
          (d1, defs1) = ExtendedAttributes_validate V defs (Interface.extAttrs iface);
          d2 = (if \<not> partial iface \<and>
                   list_all (\<lambda>extAttr. name extAttr \<noteq> ''Exposed'') attrs \<and>
                   list_all (\<lambda>extAttr. name extAttr \<noteq> ''NoInterfaceObject'') attrs
                then [\<lparr>token = role (tokens iface) ''name'', ruleName = ''require-exposed'',
                       message = require_exposed_message,
                       autofix = Some AutofixAddExposedWindow\<rparr>]
                else []);
          oldConstructors = filter (\<lambda>extAttr. name extAttr = ''Constructor'') attrs;
          d3 = map (\<lambda>c. \<lparr>token = role (tokens c) ''name'', ruleName = ''constructor-member'',
                          message = constructor_member_message,
                          autofix = Some (AutofixConstructor c)\<rparr>) oldConstructors;
          isGlobal = list_ex (\<lambda>extAttr. name extAttr = ''Global'') attrs;
          d4 = (if isGlobal then
                  map (\<lambda>named. \<lparr>token = role (tokens named) ''name'',
                                  ruleName = ''no-constructible-global'',
                                  message = ''Interfaces marked as `[Global]` cannot have named constructors.'',
                                  autofix = None\<rparr>)
                      (filter (\<lambda>extAttr. name extAttr = ''NamedConstructor'') attrs)
                  @ map (\<lambda>named. \<lparr>token = role (tokens named) ''base'',
                                    ruleName = ''no-constructible-global'',
                                    message = ''Interfaces marked as `[Global]` cannot have constructors.'',
                                    autofix = None\<rparr>)
                        (filter (\<lambda>member. Member.type member = ''constructor'')
                           (Interface.members iface))
                else []);
          (d5, defs2) = Container_validate V defs1 iface;
          (d6, defs3) = (if \<not> partial iface then checkInterfaceMemberDuplication V defs2 iface
                         else ([], defs2))
      in (d1 @ d2 @ d3 @ d4 @ d5 @ d6, defs3))"

subsection \<open>The autofix that adds \<^verbatim>\<open>[Exposed=Window]\<close> (lib/productions/helpers.ts)\<close>

text \<open>
  The class \<^verbatim>\<open>\s\<close> of JavaScript, as far as a \<^typ>\<open>char\<close> reaches: tab, line feed,
  vertical tab, form feed, carriage return, space and the no-break space.
\<close>
definition spaceChars :: string where
  "spaceChars = [CHR 0x09, CHR 0x0A, CHR 0x0B, CHR 0x0C, CHR 0x0D, CHR 0x20, CHR 0xA0]"

text \<open>
  \<^verbatim>\<open>getLastIndentation(str)\<close>: the match of \<^verbatim>\<open>/^\s+/\<close> on the last of the lines that
  \<^verbatim>\<open>str.split("\n")\<close> gives, or the empty string.
\<close>
definition getLastIndentation :: "string \<Rightarrow> string" where
  "getLastIndentation str =
     takeWhile (\<lambda>c. c \<in> set spaceChars) (rev (takeWhile (\<lambda>c. c \<noteq> LF) (rev str)))"

text \<open>
  The closure that \<^verbatim>\<open>autofixAddExposedWindow(def)\<close> returns, called on the node as it
  is then: the node after the edit, or what the call throws.
\<close>
definition autofixAddExposedWindow :: "productions \<Rightarrow> Interface \<Rightarrow> error + Interface" where
  "autofixAddExposedWindow P def =
     (case items (Interface.extAttrs def) of
        existing # others \<Rightarrow>
          (case new_Tokeniser ''Exposed=Window,'' of
             Inl e \<Rightarrow> Inl e
           | Inr tokeniser \<Rightarrow>
               (case SimpleExtendedAttribute_parse P tokeniser of
                  Inl e \<Rightarrow> Inl e
                | Inr (None, _) \<Rightarrow> Inl TypeError
                | Inr (Some exposed, tokeniser1) \<Rightarrow>
                    (let (separator, tokeniser2) = consume tokeniser1 ['',''];
                         exposed1 = exposed\<lparr>tokens := assign ''separator'' separator (tokens exposed)\<rparr>
                     in case role (tokens existing) ''name'' of
                          None \<Rightarrow> Inl TypeError
                        | Some nameToken \<Rightarrow>
                            (let existing1 =
                                   (if \<not> startsIn spaceChars (trivia nameToken) then
                                      existing\<lparr>tokens := assign ''name''
                                        (Some (nameToken\<lparr>trivia := '' '' @ trivia nameToken\<rparr>))
                                        (tokens existing)\<rparr>
                                    else existing)
                             in Inr (def\<lparr>Interface.extAttrs :=
                                       (Interface.extAttrs def)\<lparr>items := exposed1 # existing1 # others\<rparr>\<rparr>)))))
      | [] \<Rightarrow>
          (case new_Tokeniser ''[Exposed=Window]'' of
             Inl e \<Rightarrow> Inl e
           | Inr tokeniser \<Rightarrow>
               (case ExtendedAttributes_parse P tokeniser of
                  Inl e \<Rightarrow> Inl e
                | Inr (parsed, _) \<Rightarrow>
                    (case role (tokens def) ''base'' of
                       None \<Rightarrow> Inl TypeError
                     | Some baseToken \<Rightarrow>
                         (case role (tokens parsed) ''open'' of
                            None \<Rightarrow> Inl TypeError
                          | Some openToken \<Rightarrow>
                              Inr (def\<lparr>Interface.extAttrs :=
                                         parsed\<lparr>tokens := assign ''open''
                                           (Some (openToken\<lparr>trivia := trivia baseToken\<rparr>))
                                           (tokens parsed)\<rparr>,
                                       tokens := assign ''base''
                                         (Some (baseToken\<lparr>trivia := LF # getLastIndentation (trivia baseToken)\<rparr>))
                                         (tokens def)\<rparr>))))))"

text \<open>Validators that yield nothing, and nodes, for the examples.\<close>
definition no_diagnostics :: "'a validator" where
  "no_diagnostics defs node = ([], defs)"

definition example_validators :: validators where
  "example_validators =
     \<lparr>ExtendedAttributes_validate = no_diagnostics, Container_validate = no_diagnostics,
      checkInterfaceMemberDuplication = no_diagnostics\<rparr>"

definition example_token :: "string \<Rightarrow> string \<Rightarrow> nat \<Rightarrow> TokeniserToken" where
  "example_token ty lx i =
     \<lparr>TokeniserToken.type = ty, lexeme = lx, trivia = '' '', line = Some 1, index = Some (int i)\<rparr>"

text \<open>The operation of \<^verbatim>\<open>interface I { getter long (long x); };\<close>, without its argument.\<close>
definition example_getter :: "unit Operation" where
  "example_getter =
     \<lparr>tokens = [(''special'', example_token ''getter'' ''getter'' 3),
                (''open'', example_token ''('' ''('' 5), (''close'', example_token '')'' '')'' 8),
                (''termination'', example_token '';'' '';'' 9)],
      idlType = Some (named ''long''), arguments = []\<rparr>"

text \<open>The operation of \<^verbatim>\<open>interface I { long (); };\<close>.\<close>
definition example_nameless :: "unit Operation" where
  "example_nameless =
     \<lparr>tokens = [(''open'', example_token ''('' ''('' 4), (''close'', example_token '')'' '')'' 5),
                (''termination'', example_token '';'' '';'' 6)],
      idlType = Some (named ''long''), arguments = []\<rparr>"

text \<open>
  \<^verbatim>\<open>interface Foo { };\<close>, \<^verbatim>\<open>partial interface Foo { };\<close> and
  \<^verbatim>\<open>[Global] interface Foo { };\<close>
\<close>
definition example_interface :: Interface where
  "example_interface =
     \<lparr>tokens = [(''base'', example_token ''interface'' ''interface'' 0),
                (''name'', example_token ''identifier'' ''Foo'' 1),
                (''open'', example_token ''{'' ''{'' 2), (''close'', example_token ''}'' ''}'' 3),
                (''termination'', example_token '';'' '';'' 4)],
      extAttrs = \<lparr>tokens = [], items = []\<rparr>, members = []\<rparr>"

definition example_partial :: Interface where
  "example_partial =
     \<lparr>tokens = [(''partial'', example_token ''partial'' ''partial'' 0),
                (''base'', example_token ''interface'' ''interface'' 1),
                (''name'', example_token ''identifier'' ''Foo'' 2),
                (''open'', example_token ''{'' ''{'' 3), (''close'', example_token ''}'' ''}'' 4),
                (''termination'', example_token '';'' '';'' 5)],
      extAttrs = \<lparr>tokens = [], items = []\<rparr>, members = []\<rparr>"

definition example_global :: Interface where
  "example_global =
     \<lparr>tokens = [(''base'', example_token ''interface'' ''interface'' 3),
                (''name'', example_token ''identifier'' ''Foo'' 4),
                (''open'', example_token ''{'' ''{'' 5), (''close'', example_token ''}'' ''}'' 6),
                (''termination'', example_token '';'' '';'' 7)],
      extAttrs =
        \<lparr>tokens = [(''open'', example_token ''['' ''['' 0), (''close'', example_token '']'' '']'' 2)],
         items = [\<lparr>tokens = [(''name'', \<lparr>TokeniserToken.type = ''identifier'', lexeme = ''Global'',
                                          trivia = [], line = Some 1, index = Some 1\<rparr>)],
                   name = ''Global''\<rparr>]\<rparr>,
      members = []\<rparr>"

section \<open>The tokeniser: facts and claims\<close>

lemma span_le: "span cs s \<le> length s"
  by (simp add: span_def length_takeWhile_le)

lemma optional_le: "optional cs s \<le> length s" "optional cs s \<le> 1"
  by (auto simp: optional_def split: list.splits)

lemma startsIn_length: "startsIn cs s \<Longrightarrow> 0 < length s"
  by (auto simp: startsIn_def split: list.splits)

lemma span_drop_le: "k \<le> length r \<Longrightarrow> k + span cs (drop k r) \<le> length r"
  using span_le[of cs "drop k r"] by simp

lemma re_exponent_bounds: "re_exponent s = Some n \<Longrightarrow> 0 < n \<and> n \<le> length s"
  using span_le[of digitChars "drop (optional ''-+'' (tl s)) (tl s)"] optional_le(1)[of "''-+''" "tl s"]
  by (auto simp: re_exponent_def Let_def split: list.splits if_splits)

lemma re_exponent_opt_le: "re_exponent_opt s \<le> length s"
  using re_exponent_bounds[of s] by (auto simp: re_exponent_opt_def split: option.splits)

lemma re_decimal_bounds: "re_decimal s = Some n \<Longrightarrow> 0 < n \<and> n \<le> length s"
proof -
  assume a: "re_decimal s = Some n"
  define m where "m = optional ''-'' s"
  define s1 where "s1 = drop m s"
  define d1 where "d1 = span digitChars s1"
  define s2 where "s2 = drop d1 s1"
  define d2 where "d2 = span digitChars (drop 1 s2)"
  define s3 where "s3 = drop (1 + d2) s2"
  have 1: "m \<le> length s" unfolding m_def by (rule optional_le)
  have 2: "d1 \<le> length s1" unfolding d1_def by (rule span_le)
  have 3: "d2 \<le> length s2 - 1" unfolding d2_def using span_le[of digitChars "drop 1 s2"] by simp
  have 4: "re_exponent_opt s3 \<le> length s3" by (rule re_exponent_opt_le)
  have 5: "length s1 = length s - m" "length s2 = length s1 - d1" "length s3 = length s2 - (1 + d2)"
    by (simp_all add: s1_def s2_def s3_def)
  have 6: "startsIn ''.'' s2 \<Longrightarrow> 0 < length s2" by (rule startsIn_length)
  have 7: "\<And>e. re_exponent s2 = Some e \<Longrightarrow> 0 < e \<and> e \<le> length s2" by (rule re_exponent_bounds)
  from a have "(if \<not> (startsIn ''.'' s2 \<or> (0 < d1 \<and> startsIn ''eE'' s2)) then None
         else if startsIn ''.'' s2 \<and> 0 < d1 then Some (m + d1 + 1 + d2 + re_exponent_opt s3)
         else if startsIn ''.'' s2 \<and> 0 < d2 then Some (m + d1 + 1 + d2 + re_exponent_opt s3)
         else if 0 < d1 then
           (case re_exponent s2 of None \<Rightarrow> None | Some e \<Rightarrow> Some (m + d1 + e))
         else None) = Some n"
    unfolding re_decimal_def Let_def m_def s1_def d1_def s2_def d2_def s3_def by simp
  then show ?thesis using 1 2 3 4 5 6 7
    by (auto split: if_splits option.splits)
qed

lemma re_integer_bounds: "re_integer s = Some n \<Longrightarrow> 0 < n \<and> n \<le> length s"
proof -
  assume a: "re_integer s = Some n"
  define m where "m = optional ''-'' s"
  have 1: "m \<le> length s" unfolding m_def by (rule optional_le)
  from a obtain c r where cr: "drop m s = c # r"
    unfolding re_integer_def Let_def m_def by (auto split: list.splits)
  then have 2: "length s = m + 1 + length r" using 1
    by (metis One_nat_def add.assoc add_diff_cancel_left' le_add_diff_inverse length_Cons length_drop plus_1_eq_Suc)
  have 3: "span hexChars (drop 1 r) \<le> length r - 1" using span_le[of hexChars "drop 1 r"] by simp
  have 4: "span octalChars r \<le> length r" "span digitChars r \<le> length r" by (rule span_le)+
  have 5: "startsIn ''Xx'' r \<Longrightarrow> 0 < length r" by (rule startsIn_length)
  from a cr show ?thesis using 2 3 4 5
    unfolding re_integer_def Let_def m_def[symmetric]
    by (auto split: if_splits)
qed

lemma re_identifier_bounds: "re_identifier s = Some n \<Longrightarrow> 0 < n \<and> n \<le> length s"
proof -
  assume a: "re_identifier s = Some n"
  define p where "p = optional ''_-'' s"
  have 1: "p \<le> length s" unfolding p_def by (rule optional_le)
  from a obtain c r where cr: "drop p s = c # r"
    unfolding re_identifier_def Let_def p_def by (auto split: list.splits)
  have "length (drop p s) = length s - p" by simp
  with cr have 2: "length s = p + 1 + length r" using 1 by simp
  have 3: "span identifierChars r \<le> length r" by (rule span_le)
  from a cr show ?thesis using 2 3
    unfolding re_identifier_def Let_def p_def[symmetric]
    by (auto split: if_splits)
qed

lemma re_string_bounds: "re_string s = Some n \<Longrightarrow> 0 < n \<and> n \<le> length s"
  by (auto simp: re_string_def Let_def split: list.splits if_splits)

lemma re_whitespace_bounds: "re_whitespace s = Some n \<Longrightarrow> 0 < n \<and> n \<le> length s"
  using span_le[of whitespaceChars s]
  by (auto simp: re_whitespace_def Let_def split: if_splits)

lemma re_other_bounds: "re_other s = Some n \<Longrightarrow> 0 < n \<and> n \<le> length s"
  by (auto simp: re_other_def split: list.splits if_splits)

lemma re_block_comment_rest_bounds:
  "re_block_comment_rest s = Some n \<Longrightarrow> 0 < n \<and> n \<le> length s"
  by (induction s arbitrary: n rule: re_block_comment_rest.induct)
     (auto split: if_splits list.splits)

lemma re_comment_unit_bounds: "re_comment_unit s = Some n \<Longrightarrow> 0 < n \<and> n \<le> length s"
proof -
  assume a: "re_comment_unit s = Some n"
  then obtain c d r where s: "s = c # d # r"
    by (auto simp: re_comment_unit_def split: list.splits)
  have 2: "length (takeWhile (\<lambda>x. x \<noteq> LF \<and> x \<noteq> CR) r) \<le> length r"
    by (rule length_takeWhile_le)
  have 3: "\<And>k. re_block_comment_rest r = Some k \<Longrightarrow> k \<le> length r"
    using re_block_comment_rest_bounds by blast
  from a show ?thesis
    using 2 unfolding s re_comment_unit_def Let_def
    by (auto split: if_splits option.splits dest!: 3 intro: span_drop_le)
qed

lemma re_comment_more_le: "re_comment_more s \<le> length s"
proof (induction s rule: re_comment_more.induct)
  case (1 s)
  show ?case
  proof (cases "re_comment_unit s")
    case None
    then show ?thesis by (subst re_comment_more.simps) simp
  next
    case (Some n)
    with 1 have "re_comment_more (drop n s) \<le> length s - n" by simp
    moreover have "n \<le> length s" using re_comment_unit_bounds[OF Some] by simp
    ultimately show ?thesis using Some
      by (subst re_comment_more.simps) simp
  qed
qed

lemma re_comment_bounds: "re_comment s = Some n \<Longrightarrow> 0 < n \<and> n \<le> length s"
proof -
  assume a: "re_comment s = Some n"
  then obtain k where k: "re_comment_unit s = Some k" "n = k + re_comment_more (drop k s)"
    by (auto simp: re_comment_def split: option.splits)
  have "re_comment_more (drop k s) \<le> length s - k"
    using re_comment_more_le[of "drop k s"] by simp
  then show ?thesis using re_comment_unit_bounds[OF k(1)] k(2) by arith
qed

lemma tokenRe_bounds: "tokenRe ty s = Some n \<Longrightarrow> 0 < n \<and> n \<le> length s"
  using re_decimal_bounds re_integer_bounds re_identifier_bounds re_string_bounds
    re_whitespace_bounds re_comment_bounds re_other_bounds
  by (auto simp: tokenRe_def split: if_splits)

lemma attempt_None:
  "tokenRe ty (drop (lastCharIndex v) str) = None \<Longrightarrow> attemptTokenMatch str ty nf v = (None, v)"
  by (simp add: attemptTokenMatch_def)

lemma attempt_Some:
  "tokenRe ty (drop (lastCharIndex v) str) = Some n \<Longrightarrow>
   attemptTokenMatch str ty nf v =
     (Some (lastCharIndex v + n),
      v\<lparr>var_tokens := var_tokens v @ [pushed str ty n v],
        var_trivia := (if nf then var_trivia v else [])\<rparr>)"
  by (simp add: attemptTokenMatch_def pushed_def)

text \<open>The first characters of the punctuation symbols.\<close>

lemma punctuation_first:
  "p \<in> set punctuations \<Longrightarrow> startsWith str p l \<Longrightarrow> l < length str \<Longrightarrow>
   str ! l \<in> set ''(),.:;<=>?[]{}''"
  by (auto simp: punctuations_def startsWith_def take_Suc_conv_app_nth hd_drop_conv_nth
      take_Suc hd_conv_nth split: if_splits)

lemma no_punctuation:
  "\<forall>p\<in>set ps. \<not> startsWith str p (lastCharIndex (snd rv)) \<Longrightarrow> match_punctuation ps str rv = rv"
  by (induction ps) (auto simp: case_prod_unfold)

lemma some_punctuation:
  "\<exists>p\<in>set ps. startsWith str p (lastCharIndex v) \<Longrightarrow>
   \<exists>p\<in>set ps. startsWith str p (lastCharIndex v) \<and>
     match_punctuation ps str (r, v) =
       (Some (lastCharIndex v + length p),
        v\<lparr>var_tokens := var_tokens v @ [pushed str p (length p) v], var_trivia := [],
          lastCharIndex := lastCharIndex v + length p\<rparr>)"
  by (induction ps) (auto simp: pushed_def startsWith_def)

lemma startsWith_bounds:
  "startsWith str p l \<Longrightarrow> p \<noteq> [] \<Longrightarrow> 0 < length p \<and> l + length p \<le> length str"
proof -
  assume a: "startsWith str p l" and b: "p \<noteq> []"
  have "length (take (length p) (drop l str)) = length p" using a by (simp add: startsWith_def)
  then have "length p \<le> length str - l" by simp
  moreover have "0 < length p" using b by simp
  ultimately show ?thesis by arith
qed

lemma punctuations_nonempty: "p \<in> set punctuations \<Longrightarrow> p \<noteq> []"
  by (auto simp: punctuations_def)

lemma finish_Some:
  "\<forall>p\<in>set punctuations. \<not> startsWith str p (lastCharIndex v1) \<Longrightarrow>
   match_other str (match_punctuation punctuations str (Some r, v1)) =
     Inr (v1\<lparr>lastCharIndex := r, var_index := var_index v1 + 1\<rparr>)"
  by (simp add: no_punctuation match_other_def)

lemma finish_None:
  assumes "match_other str (match_punctuation punctuations str (None, v)) = Inr v'"
  shows "\<exists>n ty. 0 < n \<and> lastCharIndex v + n \<le> length str \<and> v' = add_token str ty n v"
proof (cases "\<exists>p\<in>set punctuations. startsWith str p (lastCharIndex v)")
  case True
  from some_punctuation[OF True, of None] obtain p where p: "p \<in> set punctuations"
    "startsWith str p (lastCharIndex v)"
    "match_punctuation punctuations str (None, v) =
       (Some (lastCharIndex v + length p),
        v\<lparr>var_tokens := var_tokens v @ [pushed str p (length p) v], var_trivia := [],
          lastCharIndex := lastCharIndex v + length p\<rparr>)" by blast
  from assms p(3) have "v' = add_token str p (length p) v"
    by (simp add: match_other_def add_token_def pushed_def)
  with startsWith_bounds[OF p(2) punctuations_nonempty[OF p(1)]] show ?thesis by blast
next
  case False
  then have np: "match_punctuation punctuations str (None, v) = (None, v)"
    by (simp add: no_punctuation)
  show ?thesis
  proof (cases "tokenRe ''other'' (drop (lastCharIndex v) str)")
    case None
    with assms np show ?thesis by (simp add: match_other_def attempt_None)
  next
    case (Some n)
    with assms np have "v' = add_token str ''other'' n v"
      by (simp add: match_other_def attempt_Some add_token_def)
    with tokenRe_bounds[OF Some] show ?thesis by auto
  qed
qed

lemma trivia_char_no_punctuation:
  "l < length str \<Longrightarrow> str ! l \<in> set whitespaceChars \<or> str ! l = CHR ''/'' \<Longrightarrow>
   p \<in> set punctuations \<Longrightarrow> \<not> startsWith str p l"
  using punctuation_first[of p str l]
  by (auto simp: whitespaceChars_def TAB_def LF_def CR_def)

lemma re_integer_first: "re_integer s = Some n \<Longrightarrow> hd s \<in> set ''-0123456789''"
  by (cases s) (auto simp: re_integer_def optional_def Let_def split: list.splits if_splits)

lemma re_identifier_first: "re_identifier s = Some n \<Longrightarrow> hd s \<in> set (''_-'' @ letterChars)"
  by (cases s) (auto simp: re_identifier_def optional_def Let_def split: list.splits if_splits)

lemma re_string_first: "re_string s = Some n \<Longrightarrow> hd s = DQUOTE"
  by (cases s) (auto simp: re_string_def split: if_splits)

lemma re_decimal_first:
  "re_decimal s = Some n \<Longrightarrow>
   hd s \<in> set ''-0123456789'' \<or> (\<exists>d r. s = CHR ''.'' # d # r \<and> d \<in> set digitChars)"
proof -
  assume a: "re_decimal s = Some n"
  show ?thesis
  proof (cases s)
    case Nil
    with a show ?thesis by (simp add: re_decimal_def optional_def startsIn_def span_def)
  next
    case (Cons c r)
    show ?thesis
    proof (cases "c = CHR ''-'' \<or> c \<in> set digitChars")
      case True
      then show ?thesis using Cons by (auto simp: digitChars_def)
    next
      case False
      then have m: "optional ''-'' s = 0" and d1: "span digitChars s = 0"
        using Cons by (auto simp: optional_def span_def)
      from a have dot: "startsIn ''.'' s" and d2: "0 < span digitChars (drop 1 s)"
        by (auto simp: re_decimal_def Let_def m d1 split: if_splits)
      from dot Cons have c: "c = CHR ''.''" by (simp add: startsIn_def)
      from d2 Cons obtain d r' where "r = d # r'" "d \<in> set digitChars"
        by (cases r) (auto simp: span_def split: if_splits)
      with c Cons show ?thesis by simp
    qed
  qed
qed

lemma punct_chars_not_token_start:
  assumes "c \<in> set ''(),.:;<=>?[]{}''"
  shows "c \<notin> set ''-0123456789''" "c \<notin> set (''_-'' @ letterChars)" "c \<noteq> DQUOTE"
  using assms by (auto simp: letterChars_def DQUOTE_def)

lemma token_match_no_punctuation:
  assumes l: "l < length str"
    and ty: "ty = ''decimal'' \<or> ty = ''integer'' \<or> ty = ''identifier'' \<or> ty = ''string''"
    and m: "tokenRe ty (drop l str) = Some n"
    and p: "p \<in> set punctuations"
  shows "\<not> startsWith str p l"
proof
  assume sw: "startsWith str p l"
  have hd: "hd (drop l str) = str ! l" using l by (simp add: hd_drop_conv_nth)
  from punctuation_first[OF p sw l] have c: "str ! l \<in> set ''(),.:;<=>?[]{}''" .
  note nc = punct_chars_not_token_start[OF c]
  from ty m consider
      (dec) "re_decimal (drop l str) = Some n"
    | (int) "re_integer (drop l str) = Some n"
    | (ide) "re_identifier (drop l str) = Some n"
    | (str) "re_string (drop l str) = Some n"
    by (auto simp: tokenRe_def)
  then show False
  proof cases
    case dec
    from re_decimal_first[OF dec] show False
    proof
      assume "hd (drop l str) \<in> set ''-0123456789''"
      with nc(1) hd show False by simp
    next
      assume "\<exists>d r. drop l str = CHR ''.'' # d # r \<and> d \<in> set digitChars"
      then obtain d r where d: "drop l str = CHR ''.'' # d # r" "d \<in> set digitChars" by blast
      have "d \<noteq> CHR ''.''" using d(2) by (auto simp: digitChars_def)
      moreover from p sw d(1) have "d = CHR ''.''"
        by (auto simp: punctuations_def startsWith_def)
      ultimately show False by simp
    qed
  next
    case int
    from re_integer_first[OF int] nc(1) hd show False by simp
  next
    case ide
    from re_identifier_first[OF ide] nc(2) hd show False by simp
  next
    case str
    from re_string_first[OF str] nc(3) hd show False by simp
  qed
qed

lemma match_identifier_cases:
  assumes "match_identifier str v = Inr rv"
  shows "rv = (None, v) \<or>
         (\<exists>n ty. tokenRe ''identifier'' (drop (lastCharIndex v) str) = Some n \<and>
            rv = (Some (lastCharIndex v + n),
                  v\<lparr>var_tokens := var_tokens v @ [pushed str ty n v], var_trivia := []\<rparr>))"
proof (cases "tokenRe ''identifier'' (drop (lastCharIndex v) str)")
  case None
  with assms show ?thesis by (simp add: match_identifier_def attempt_None)
next
  case (Some n)
  let ?t = "pushed str ''identifier'' n v"
  let ?v1 = "v\<lparr>var_tokens := var_tokens v @ [?t], var_trivia := []\<rparr>"
  have a: "attemptTokenMatch str ''identifier'' False v = (Some (lastCharIndex v + n), ?v1)"
    using attempt_Some[OF Some, of False] by simp
  have rw: "?t\<lparr>TokeniserToken.type := lexeme ?t\<rparr> = pushed str (lexeme ?t) n v"
    by (simp add: pushed_def)
  have res: "\<not> lexeme ?t \<in> set reserved"
    using assms by (auto simp: match_identifier_def a Let_def)
  show ?thesis
  proof (cases "lexeme ?t \<in> set nonRegexTerminals")
    case True
    with assms res have "rv = (Some (lastCharIndex v + n),
         v\<lparr>var_tokens := var_tokens v @ [pushed str (lexeme ?t) n v], var_trivia := []\<rparr>)"
      by (auto simp: match_identifier_def a Let_def rw)
    with Some show ?thesis by blast
  next
    case False
    with assms res have "rv = (Some (lastCharIndex v + n), ?v1)"
      by (auto simp: match_identifier_def a Let_def)
    with Some show ?thesis by blast
  qed
qed

lemma match_token_cases:
  assumes "match_token str (None, v) = Inr rv"
  shows "rv = (None, v) \<or>
         (\<exists>ty0 n ty. (ty0 = ''decimal'' \<or> ty0 = ''integer'' \<or> ty0 = ''identifier'' \<or> ty0 = ''string'') \<and>
            tokenRe ty0 (drop (lastCharIndex v) str) = Some n \<and>
            rv = (Some (lastCharIndex v + n),
                  v\<lparr>var_tokens := var_tokens v @ [pushed str ty n v], var_trivia := []\<rparr>))"
proof -
  let ?s = "drop (lastCharIndex v) str"
  let ?c = "str ! lastCharIndex v"
  consider (tok) "?c \<in> set tokenStartChars"
    | (str) "?c \<notin> set tokenStartChars" "?c = DQUOTE"
    | (oth) "?c \<notin> set tokenStartChars" "?c \<noteq> DQUOTE" by blast
  then show ?thesis
  proof cases
    case tok
    show ?thesis
    proof (cases "tokenRe ''decimal'' ?s")
      case (Some n)
      with assms tok have "rv = (Some (lastCharIndex v + n),
                  v\<lparr>var_tokens := var_tokens v @ [pushed str ''decimal'' n v], var_trivia := []\<rparr>)"
        by (auto simp: match_token_def attempt_Some)
      with Some show ?thesis by blast
    next
      case None
      note dec = None
      show ?thesis
      proof (cases "tokenRe ''integer'' ?s")
        case (Some n)
        with assms tok dec have "rv = (Some (lastCharIndex v + n),
                  v\<lparr>var_tokens := var_tokens v @ [pushed str ''integer'' n v], var_trivia := []\<rparr>)"
          by (auto simp: match_token_def attempt_Some attempt_None)
        with Some show ?thesis by blast
      next
        case None
        with assms tok dec have "match_identifier str v = Inr rv"
          by (auto simp: match_token_def attempt_None)
        from match_identifier_cases[OF this] show ?thesis by blast
      qed
    qed
  next
    case str
    show ?thesis
    proof (cases "tokenRe ''string'' ?s")
      case None
      with assms str show ?thesis by (auto simp: match_token_def attempt_None)
    next
      case (Some n)
      with assms str have "rv = (Some (lastCharIndex v + n),
                  v\<lparr>var_tokens := var_tokens v @ [pushed str ''string'' n v], var_trivia := []\<rparr>)"
        by (auto simp: match_token_def attempt_Some)
      with Some show ?thesis by blast
    qed
  next
    case oth
    with assms show ?thesis by (auto simp: match_token_def)
  qed
qed

lemma round_cases:
  assumes r: "tokenise_round str v = Inr v'" and l: "lastCharIndex v < length str"
  shows "\<exists>n. 0 < n \<and> lastCharIndex v + n \<le> length str \<and>
             (v' = add_trivia str n v \<or> (\<exists>ty. v' = add_token str ty n v))"
proof -
  define c where "c = str ! lastCharIndex v"
  define s where "s = drop (lastCharIndex v) str"
  have bounds: "\<And>ty n. tokenRe ty s = Some n \<Longrightarrow> 0 < n \<and> lastCharIndex v + n \<le> length str"
  proof -
    fix ty n assume "tokenRe ty s = Some n"
    from tokenRe_bounds[OF this] have "0 < n" "n \<le> length str - lastCharIndex v"
      by (simp_all add: s_def)
    with l show "0 < n \<and> lastCharIndex v + n \<le> length str" by arith
  qed
  show ?thesis
  proof (cases "\<exists>ty n. (ty = ''whitespace'' \<and> c \<in> set whitespaceChars \<or>
                         ty = ''comment'' \<and> c \<notin> set whitespaceChars \<and> c = CHR ''/'')
                        \<and> tokenRe ty s = Some n")
    case True
    then obtain ty n where ty: "ty = ''whitespace'' \<and> c \<in> set whitespaceChars \<or>
        ty = ''comment'' \<and> c \<notin> set whitespaceChars \<and> c = CHR ''/''"
      and n: "tokenRe ty s = Some n" by blast
    have mt: "match_trivia str v =
        (Some (lastCharIndex v + n), v\<lparr>var_tokens := var_tokens v @ [pushed str ty n v], var_trivia := var_trivia v\<rparr>)"
      using ty n attempt_Some[of ty v str n True]
      by (auto simp: match_trivia_def c_def[symmetric] s_def[symmetric])
    have np: "\<forall>p\<in>set punctuations. \<not> startsWith str p (lastCharIndex v)"
      using trivia_char_no_punctuation[OF l] ty by (auto simp: c_def)
    have "match_token str (match_trivia str v) =
        Inr (Some (lastCharIndex v + n),
             v\<lparr>var_line := var_line v + length (filter (\<lambda>c. c = LF) (take n s)),
               var_trivia := var_trivia v @ take n s,
               var_index := var_index v - 1\<rparr>)"
      by (simp add: mt match_token_def pushed_def s_def Let_def)
    with r have "v' = add_trivia str n v"
      using finish_Some[of str "v\<lparr>var_line := var_line v + length (filter (\<lambda>c. c = LF) (take n s)),
               var_trivia := var_trivia v @ take n s,
               var_index := var_index v - 1\<rparr>" "lastCharIndex v + n"] np
      by (simp add: tokenise_round_def add_trivia_def s_def)
    with bounds[OF n] show ?thesis by blast
  next
    case False
    then have mt: "match_trivia str v = (None, v)"
      using attempt_None[of _ v str True]
      by (cases "tokenRe ''whitespace'' s"; cases "tokenRe ''comment'' s")
         (auto simp: match_trivia_def c_def[symmetric] s_def[symmetric])
    from r mt obtain rv where rv: "match_token str (None, v) = Inr rv"
      and fin: "match_other str (match_punctuation punctuations str rv) = Inr v'"
      by (auto simp: tokenise_round_def split: sum.splits)
    from match_token_cases[OF rv] show ?thesis
    proof
      assume "rv = (None, v)"
      with fin finish_None[of str v v'] show ?thesis by blast
    next
      assume "\<exists>ty0 n ty. (ty0 = ''decimal'' \<or> ty0 = ''integer'' \<or> ty0 = ''identifier'' \<or> ty0 = ''string'') \<and>
            tokenRe ty0 (drop (lastCharIndex v) str) = Some n \<and>
            rv = (Some (lastCharIndex v + n),
                  v\<lparr>var_tokens := var_tokens v @ [pushed str ty n v], var_trivia := []\<rparr>)"
      then obtain ty0 n ty where ty0: "ty0 = ''decimal'' \<or> ty0 = ''integer'' \<or> ty0 = ''identifier'' \<or> ty0 = ''string''"
        and n: "tokenRe ty0 s = Some n"
        and rv': "rv = (Some (lastCharIndex v + n),
                  v\<lparr>var_tokens := var_tokens v @ [pushed str ty n v], var_trivia := []\<rparr>)"
        unfolding s_def by blast
      have np: "\<forall>p\<in>set punctuations. \<not> startsWith str p (lastCharIndex v)"
        using token_match_no_punctuation[OF l ty0] n by (auto simp: s_def)
      from fin rv' np have "v' = add_token str ty n v"
        using finish_Some[of str "v\<lparr>var_tokens := var_tokens v @ [pushed str ty n v], var_trivia := []\<rparr>"
            "lastCharIndex v + n"]
        by (simp add: add_token_def)
      with bounds[OF n] show ?thesis by blast
    qed
  qed
qed

termination tokenise_loop
proof (relation "measure (\<lambda>(str, v). length str - lastCharIndex v)")
  show "wf (measure (\<lambda>(str, v). length str - lastCharIndex v))" by simp
next
  fix str v v'
  assume l: "lastCharIndex v < length str" and r: "tokenise_round str v = Inr v'"
  from round_cases[OF r l] obtain n where "0 < n"
    "v' = add_trivia str n v \<or> (\<exists>ty. v' = add_token str ty n v)" by blast
  then have "lastCharIndex v' = lastCharIndex v + n" "0 < n"
    by (auto simp: add_trivia_def add_token_def)
  with l show "((str, v'), (str, v)) \<in> measure (\<lambda>(str, v). length str - lastCharIndex v)"
    by simp
qed

declare tokenise_loop.simps [simp del]

lemma loop_invariant:
  assumes "tokenise_loop str v = Inr v'" and "I v"
    and step: "\<And>v v'. I v \<Longrightarrow> lastCharIndex v < length str \<Longrightarrow> tokenise_round str v = Inr v' \<Longrightarrow> I v'"
  shows "I v' \<and> length str \<le> lastCharIndex v'"
  using assms
proof (induction str v rule: tokenise_loop.induct)
  case (1 str v)
  show ?case
  proof (cases "lastCharIndex v < length str")
    case False
    with "1.prems" show ?thesis by (simp add: tokenise_loop.simps[of str v])
  next
    case True
    with "1.prems"(1) obtain v1 where r: "tokenise_round str v = Inr v1"
      and l: "tokenise_loop str v1 = Inr v'"
      by (auto simp: tokenise_loop.simps[of str v] split: sum.splits)
    from "1.prems"(3)[OF "1.prems"(2) True r] have i: "I v1" .
    show ?thesis
    proof (rule "1.IH"[OF True r l i])
      fix a b assume "I a" "lastCharIndex a < length str" "tokenise_round str a = Inr b"
      then show "I b" by (rule "1.prems"(3))
    qed
  qed
qed

lemma covered_round:
  assumes "covered str v" "lastCharIndex v < length str" "tokenise_round str v = Inr v'"
  shows "covered str v'"
proof -
  from round_cases[OF assms(3,2)] obtain n where n: "0 < n" "lastCharIndex v + n \<le> length str"
    "v' = add_trivia str n v \<or> (\<exists>ty. v' = add_token str ty n v)" by blast
  from n(3) assms(1) n(2) show ?thesis
    by (auto simp: covered_def add_trivia_def add_token_def pushed_def take_add)
qed

text \<open>
  C1. For every input \<open>I\<close> that \<^verbatim>\<open>tokenise\<close> turns into a token vector, the
  concatenation of trivia and lexeme over the tokens before \<^verbatim>\<open>eof\<close>, in order, followed
  by the trivia of the final \<^verbatim>\<open>eof\<close> token, is \<open>I\<close> itself.
\<close>

theorem tokenise_trivia_coverage:
  assumes "tokenise I = Inr toks"
  shows "concat (map (\<lambda>t. trivia t @ lexeme t) (butlast toks)) @ trivia (last toks) = I"
proof -
  let ?init = "tokenise_init"
  from assms obtain v where v: "tokenise_loop I ?init = Inr v"
    and toks: "toks = var_tokens v @ [\<lparr>TokeniserToken.type = ''eof'', lexeme = [], trivia = var_trivia v, line = None, index = None\<rparr>]"
    by (auto simp: tokenise_def split: sum.splits)
  have "covered I ?init" by (simp add: covered_def tokenise_init_def)
  from loop_invariant[of I ?init v "covered I", OF v this] covered_round
  have "covered I v" "length I \<le> lastCharIndex v" by blast+
  then show ?thesis by (simp add: covered_def toks)
qed

theorem tokenise_trivia_coverage_witness:
  "tokenise (''// c'' @ [LF] @ ''a  /*x*/ -1.5e3;'' @ [LF]) =
     Inr [\<lparr>TokeniserToken.type = ''identifier'', lexeme = ''a'', trivia = ''// c'' @ [LF],
           line = Some 2, index = Some 0\<rparr>,
          \<lparr>TokeniserToken.type = ''decimal'', lexeme = ''-1.5e3'', trivia = ''  /*x*/ '',
           line = Some 2, index = Some 1\<rparr>,
          \<lparr>TokeniserToken.type = '';'', lexeme = '';'', trivia = [], line = Some 2, index = Some 2\<rparr>,
          \<lparr>TokeniserToken.type = ''eof'', lexeme = [], trivia = [LF], line = None, index = None\<rparr>]
   \<and> (''// c'' @ [LF]) @ ''a'' @ ''  /*x*/ '' @ ''-1.5e3'' @ [] @ '';'' @ [LF] =
       ''// c'' @ [LF] @ ''a  /*x*/ -1.5e3;'' @ [LF]"
proof -
  have h: "tokenise (''// c'' @ [LF] @ ''a  /*x*/ -1.5e3;'' @ [LF]) =
     Inr [\<lparr>TokeniserToken.type = ''identifier'', lexeme = ''a'', trivia = ''// c'' @ [LF],
           line = Some 2, index = Some 0\<rparr>,
          \<lparr>TokeniserToken.type = ''decimal'', lexeme = ''-1.5e3'', trivia = ''  /*x*/ '',
           line = Some 2, index = Some 1\<rparr>,
          \<lparr>TokeniserToken.type = '';'', lexeme = '';'', trivia = [], line = Some 2, index = Some 2\<rparr>,
          \<lparr>TokeniserToken.type = ''eof'', lexeme = [], trivia = [LF], line = None, index = None\<rparr>]"
    by code_simp
  from tokenise_trivia_coverage[OF h] h show ?thesis by simp
qed

lemma indexed_add_trivia: "indexed v \<Longrightarrow> indexed (add_trivia str n v)"
  unfolding indexed_def add_trivia_def
  by simp (meson trans_le_add1)

lemma indexed_add_token:
  assumes "indexed v" shows "indexed (add_token str ty n v)"
proof -
  let ?t = "pushed str ty n v"
  let ?ts = "var_tokens v @ [?t]"
  have a: "var_index v = int (length (var_tokens v))"
    and b: "\<And>k. k < length (var_tokens v) \<Longrightarrow> index (var_tokens v ! k) = Some (int k) \<and>
        (\<exists>a. line (var_tokens v ! k) = Some a \<and> a \<le> var_line v)"
    and c: "\<And>j k. j \<le> k \<Longrightarrow> k < length (var_tokens v) \<Longrightarrow>
        (\<exists>a b. line (var_tokens v ! j) = Some a \<and> line (var_tokens v ! k) = Some b \<and> a \<le> b)"
    using assms by (auto simp: indexed_def)
  have t: "index ?t = Some (int (length (var_tokens v)))" "line ?t = Some (var_line v)"
    by (simp_all add: pushed_def a)
  have 1: "index (?ts ! k) = Some (int k) \<and> (\<exists>a. line (?ts ! k) = Some a \<and> a \<le> var_line v)"
    if "k < length ?ts" for k
  proof (cases "k < length (var_tokens v)")
    case True then show ?thesis using b[OF True] by (simp add: nth_append)
  next
    case False
    with that have "k = length (var_tokens v)" by simp
    then show ?thesis using t by simp
  qed
  have 2: "\<exists>a b. line (?ts ! j) = Some a \<and> line (?ts ! k) = Some b \<and> a \<le> b"
    if "j \<le> k" "k < length ?ts" for j k
  proof (cases "k < length (var_tokens v)")
    case True
    with that have "j < length (var_tokens v)" by simp
    with True c[OF that(1) True] show ?thesis by (simp add: nth_append)
  next
    case False
    with that have k: "k = length (var_tokens v)" by simp
    show ?thesis
    proof (cases "j < length (var_tokens v)")
      case True
      from b[OF True] obtain a where "line (var_tokens v ! j) = Some a" "a \<le> var_line v" by blast
      with True k t show ?thesis by (simp add: nth_append)
    next
      case False
      with that k have "j = length (var_tokens v)" by simp
      with k t show ?thesis by simp
    qed
  qed
  show ?thesis
    unfolding indexed_def using 1 2 a by (simp add: add_token_def)
qed

lemma indexed_round:
  assumes "indexed v" "lastCharIndex v < length str" "tokenise_round str v = Inr v'"
  shows "indexed v'"
  using round_cases[OF assms(3,2)] assms(1) indexed_add_trivia indexed_add_token by blast

text \<open>
  C6, as amended. For every input that tokenises without error, every token at a position
  \<open>k\<close> before the final \<^verbatim>\<open>eof\<close> token has \<^verbatim>\<open>index == k\<close> and the lines of successive
  tokens before \<^verbatim>\<open>eof\<close> never decrease; the \<^verbatim>\<open>eof\<close> token itself, the last of the vector,
  has neither an index nor a line.
\<close>

theorem tokenise_index_and_line:
  assumes "tokenise I = Inr toks"
  shows "toks \<noteq> [] \<and> index (last toks) = None \<and> line (last toks) = None \<and>
     (\<forall>k<length toks - 1. index (toks ! k) = Some (int k)) \<and>
     (\<forall>j k. j \<le> k \<and> k < length toks - 1 \<longrightarrow>
        (\<exists>a b. line (toks ! j) = Some a \<and> line (toks ! k) = Some b \<and> a \<le> b))"
proof -
  let ?init = "tokenise_init"
  from assms obtain v where v: "tokenise_loop I ?init = Inr v"
    and toks: "toks = var_tokens v @ [\<lparr>TokeniserToken.type = ''eof'', lexeme = [], trivia = var_trivia v, line = None, index = None\<rparr>]"
    by (auto simp: tokenise_def split: sum.splits)
  have "indexed ?init" by (simp add: indexed_def tokenise_init_def)
  from loop_invariant[of I ?init v indexed, OF v this] indexed_round
  have "indexed v" by blast
  then show ?thesis unfolding indexed_def toks by (simp add: nth_append)
qed

theorem tokenise_index_and_line_witness:
  "tokenise (''// c'' @ [LF] @ ''a'' @ [LF] @ ''-1.5e3;'') =
     Inr [\<lparr>TokeniserToken.type = ''identifier'', lexeme = ''a'', trivia = ''// c'' @ [LF],
           line = Some 2, index = Some 0\<rparr>,
          \<lparr>TokeniserToken.type = ''decimal'', lexeme = ''-1.5e3'', trivia = [LF],
           line = Some 3, index = Some 1\<rparr>,
          \<lparr>TokeniserToken.type = '';'', lexeme = '';'', trivia = [], line = Some 3, index = Some 2\<rparr>,
          \<lparr>TokeniserToken.type = ''eof'', lexeme = [], trivia = [], line = None, index = None\<rparr>]
   \<and> (2::nat) \<le> 3 \<and> (3::nat) \<le> 3"
proof -
  have h: "tokenise (''// c'' @ [LF] @ ''a'' @ [LF] @ ''-1.5e3;'') =
     Inr [\<lparr>TokeniserToken.type = ''identifier'', lexeme = ''a'', trivia = ''// c'' @ [LF],
           line = Some 2, index = Some 0\<rparr>,
          \<lparr>TokeniserToken.type = ''decimal'', lexeme = ''-1.5e3'', trivia = [LF],
           line = Some 3, index = Some 1\<rparr>,
          \<lparr>TokeniserToken.type = '';'', lexeme = '';'', trivia = [], line = Some 3, index = Some 2\<rparr>,
          \<lparr>TokeniserToken.type = ''eof'', lexeme = [], trivia = [], line = None, index = None\<rparr>]"
    by code_simp
  from tokenise_index_and_line[OF h] h show ?thesis by simp
qed

text \<open>
  C6 as stated fails at the empty input: the vector is the \<^verbatim>\<open>eof\<close> token alone, at
  position 0, and that token has no index.
\<close>

theorem tokenise_eof_has_no_index:
  "tokenise [] = Inr [\<lparr>TokeniserToken.type = ''eof'', lexeme = [], trivia = [], line = None, index = None\<rparr>]
   \<and> index ([\<lparr>TokeniserToken.type = ''eof'', lexeme = [], trivia = [], line = None, index = None\<rparr>] ! 0) \<noteq> Some 0"
  by (simp add: tokenise_def tokenise_init_def tokenise_loop.simps)

lemma tokenise_rounds_loop:
  "tokenise_rounds k str v = Inr v' \<Longrightarrow> tokenise_loop str v = tokenise_loop str v'"
proof (induction k arbitrary: v)
  case 0
  then show ?case by simp
next
  case (Suc k)
  show ?case
  proof (cases "lastCharIndex v < length str")
    case False
    with Suc.prems show ?thesis by simp
  next
    case True
    with Suc.prems obtain v1 where r: "tokenise_round str v = Inr v1"
      and k: "tokenise_rounds k str v1 = Inr v'"
      by (auto split: sum.splits)
    from Suc.IH[OF k] r True show ?thesis
      by (simp add: tokenise_loop.simps[of str v])
  qed
qed

lemma re_decimal_None: "s \<noteq> [] \<Longrightarrow> hd s \<notin> set ''-0123456789.'' \<Longrightarrow> re_decimal s = None"
  using re_decimal_first[of s] by (cases "re_decimal s") auto

lemma re_integer_None: "hd s \<notin> set ''-0123456789'' \<Longrightarrow> re_integer s = None"
  using re_integer_first[of s] by (cases "re_integer s") auto

lemma reserved_first:
  assumes "take n s \<in> set reserved"
  shows "s \<noteq> [] \<and> (hd s = CHR ''_'' \<or> hd s = CHR ''t'')"
proof -
  have "[] \<notin> set reserved" by (simp add: reserved_def)
  with assms have s: "s \<noteq> []" "n \<noteq> 0" by (cases s; cases n; simp)+
  then have h: "hd (take n s) = hd s" by (cases s; cases n) auto
  from assms have "hd (take n s) = CHR ''_'' \<or> hd (take n s) = CHR ''t''"
    by (auto simp: reserved_def)
  with h s show ?thesis by simp
qed

text \<open>
  C5. Whenever the cursor of \<^verbatim>\<open>tokenise\<close> stands, after some rounds of the loop, where the
  identifier expression matches a lexeme of the reserved set, \<^verbatim>\<open>tokenise\<close> raises the syntax
  error whose bare message is the unescaped lexeme followed by
  \<^verbatim>\<open> is a reserved identifier and must not be used.\<close> The keyword table is not asked
  first: \<^verbatim>\<open>_constructor\<close> is refused although \<^verbatim>\<open>constructor\<close> is a keyword.
\<close>

theorem tokenise_reserved_identifier:
  assumes k: "tokenise_rounds k str tokenise_init = Inr v"
    and n: "re_identifier (drop (lastCharIndex v) str) = Some n"
    and res: "take n (drop (lastCharIndex v) str) \<in> set reserved"
  shows "tokenise str =
     Inl (WebIDLParseError (length (var_tokens v))
           (unescape (take n (drop (lastCharIndex v) str)) @
            '' is a reserved identifier and must not be used.''))"
proof -
  let ?s = "drop (lastCharIndex v) str"
  let ?c = "str ! lastCharIndex v"
  from reserved_first[OF res] have s: "?s \<noteq> []" and c0: "hd ?s = CHR ''_'' \<or> hd ?s = CHR ''t''"
    by blast+
  from s have l: "lastCharIndex v < length str" by simp
  then have hd: "hd ?s = ?c" by (simp add: hd_drop_conv_nth)
  from c0 hd have c: "?c = CHR ''_'' \<or> ?c = CHR ''t''" by simp
  have c1: "?c \<notin> set whitespaceChars" "?c \<noteq> CHR ''/''" "?c \<in> set tokenStartChars"
    using c by (auto simp: whitespaceChars_def TAB_def LF_def CR_def tokenStartChars_def letterChars_def)
  have mt: "match_trivia str v = (None, v)"
    using c1 by (simp add: match_trivia_def)
  have dec: "tokenRe ''decimal'' ?s = None"
    using re_decimal_None[OF s] c0 by (auto simp: tokenRe_def)
  have int: "tokenRe ''integer'' ?s = None"
    using re_integer_None[of ?s] c0 by (auto simp: tokenRe_def)
  have ide: "tokenRe ''identifier'' ?s = Some n"
    using n by (simp add: tokenRe_def)
  have mi: "match_identifier str v =
     Inl (WebIDLParseError (length (var_tokens v))
           (unescape (take n ?s) @ '' is a reserved identifier and must not be used.''))"
    using res by (simp add: match_identifier_def attempt_Some[OF ide] pushed_def)
  have "match_token str (None, v) = match_identifier str v"
    using c1 by (simp add: match_token_def attempt_None[OF dec] attempt_None[OF int])
  with mt mi have "tokenise_round str v =
     Inl (WebIDLParseError (length (var_tokens v))
           (unescape (take n ?s) @ '' is a reserved identifier and must not be used.''))"
    by (simp add: tokenise_round_def)
  with l have "tokenise_loop str v =
     Inl (WebIDLParseError (length (var_tokens v))
           (unescape (take n ?s) @ '' is a reserved identifier and must not be used.''))"
    by (simp add: tokenise_loop.simps[of str v])
  with tokenise_rounds_loop[OF k] show ?thesis by (simp add: tokenise_def)
qed

theorem tokenise_reserved_identifier_witness:
  "tokenise ''a toString'' =
     Inl (WebIDLParseError 1 ''toString is a reserved identifier and must not be used.'')
   \<and> ''constructor'' \<in> set nonRegexTerminals
   \<and> tokenise ''_constructor'' =
       Inl (WebIDLParseError 0 ''constructor is a reserved identifier and must not be used.'')"
proof -
  let ?v = "\<lparr>var_tokens = [\<lparr>TokeniserToken.type = ''identifier'', lexeme = ''a'', trivia = [], line = Some 1,
                         index = Some 0\<rparr>],
            lastCharIndex = 2, var_trivia = '' '', var_line = 1, var_index = 1\<rparr>"
  have a1: "tokenise_rounds 2 ''a toString'' tokenise_init = Inr ?v" by code_simp
  have a2: "re_identifier (drop (lastCharIndex ?v) ''a toString'') = Some 8" by code_simp
  have a3: "take 8 (drop (lastCharIndex ?v) ''a toString'') \<in> set reserved" by code_simp
  have a4: "unescape (take 8 (drop (lastCharIndex ?v) ''a toString'')) = ''toString''"
    by code_simp
  have b1: "tokenise_rounds 0 ''_constructor'' tokenise_init = Inr tokenise_init" by simp
  have b2: "re_identifier (drop (lastCharIndex tokenise_init) ''_constructor'') = Some 12"
    by code_simp
  have b3: "take 12 (drop (lastCharIndex tokenise_init) ''_constructor'') \<in> set reserved"
    by code_simp
  have b4: "unescape (take 12 (drop (lastCharIndex tokenise_init) ''_constructor'')) = ''constructor''"
    by code_simp
  have b5: "length (var_tokens tokenise_init) = 0" by (simp add: tokenise_init_def)
  have c: "''constructor'' \<in> set nonRegexTerminals" by code_simp
  from tokenise_reserved_identifier[OF a1 a2 a3] tokenise_reserved_identifier[OF b1 b2 b3] c
  show ?thesis unfolding a4 b4 b5 by simp
qed

text \<open>
  C10. Where the next character is a double quote and the string expression does not
  match, the round raises nothing: it emits the quote alone as a token of kind
  \<^verbatim>\<open>other\<close>, and the loop goes on behind it.
\<close>

theorem tokenise_unterminated_string:
  assumes l: "lastCharIndex v < length str"
    and q: "str ! lastCharIndex v = DQUOTE"
    and u: "re_string (drop (lastCharIndex v) str) = None"
  shows "tokenise_round str v =
           Inr (v\<lparr>var_tokens := var_tokens v @
                    [\<lparr>TokeniserToken.type = ''other'', lexeme = [DQUOTE], trivia = var_trivia v,
                      line = Some (var_line v), index = Some (var_index v)\<rparr>],
                  var_trivia := [],
                  lastCharIndex := lastCharIndex v + 1,
                  var_index := var_index v + 1\<rparr>)
         \<and> tokenise_loop str v =
           tokenise_loop str
             (v\<lparr>var_tokens := var_tokens v @
                    [\<lparr>TokeniserToken.type = ''other'', lexeme = [DQUOTE], trivia = var_trivia v,
                      line = Some (var_line v), index = Some (var_index v)\<rparr>],
                  var_trivia := [],
                  lastCharIndex := lastCharIndex v + 1,
                  var_index := var_index v + 1\<rparr>)"
proof -
  let ?s = "drop (lastCharIndex v) str"
  have s: "?s = DQUOTE # drop (Suc (lastCharIndex v)) str"
    using l q by (simp add: Cons_nth_drop_Suc[symmetric])
  have c1: "DQUOTE \<notin> set whitespaceChars" "DQUOTE \<noteq> CHR ''/''" "DQUOTE \<notin> set tokenStartChars"
    by (simp_all add: DQUOTE_def whitespaceChars_def TAB_def LF_def CR_def tokenStartChars_def
        digitChars_def letterChars_def)
  have mt: "match_trivia str v = (None, v)"
    using c1 by (simp add: match_trivia_def q)
  have st: "tokenRe ''string'' ?s = None" using u by (simp add: tokenRe_def)
  have mk: "match_token str (None, v) = Inr (None, v)"
    using c1 by (simp add: match_token_def q attempt_None[OF st])
  have np: "\<forall>p\<in>set punctuations. \<not> startsWith str p (lastCharIndex v)"
  proof
    fix p assume p: "p \<in> set punctuations"
    show "\<not> startsWith str p (lastCharIndex v)"
    proof
      assume "startsWith str p (lastCharIndex v)"
      from punctuation_first[OF p this l] show False by (simp add: q DQUOTE_def)
    qed
  qed
  have mp: "match_punctuation punctuations str (None, v) = (None, v)"
    using np by (simp add: no_punctuation)
  have ot: "tokenRe ''other'' ?s = Some 1"
    by (simp add: tokenRe_def re_other_def s DQUOTE_def whitespaceChars_def TAB_def LF_def CR_def
        digitChars_def letterChars_def)
  have r: "tokenise_round str v =
           Inr (v\<lparr>var_tokens := var_tokens v @
                    [\<lparr>TokeniserToken.type = ''other'', lexeme = [DQUOTE], trivia = var_trivia v,
                      line = Some (var_line v), index = Some (var_index v)\<rparr>],
                  var_trivia := [],
                  lastCharIndex := lastCharIndex v + 1,
                  var_index := var_index v + 1\<rparr>)"
    by (simp add: tokenise_round_def mt mk mp match_other_def attempt_Some[OF ot] pushed_def s)
  from r l show ?thesis by (simp add: tokenise_loop.simps[of str v])
qed

theorem tokenise_unterminated_string_witness:
  "lastCharIndex tokenise_init < length (DQUOTE # ''abc'')
   \<and> (DQUOTE # ''abc'') ! lastCharIndex tokenise_init = DQUOTE
   \<and> re_string (drop (lastCharIndex tokenise_init) (DQUOTE # ''abc'')) = None
   \<and> tokenise_round (DQUOTE # ''abc'') tokenise_init =
       Inr \<lparr>var_tokens = [\<lparr>TokeniserToken.type = ''other'', lexeme = [DQUOTE], trivia = [], line = Some 1,
                         index = Some 0\<rparr>],
            lastCharIndex = 1, var_trivia = [], var_line = 1, var_index = 1\<rparr>
   \<and> tokenise (DQUOTE # ''abc'') =
       Inr [\<lparr>TokeniserToken.type = ''other'', lexeme = [DQUOTE], trivia = [], line = Some 1, index = Some 0\<rparr>,
            \<lparr>TokeniserToken.type = ''identifier'', lexeme = ''abc'', trivia = [], line = Some 1, index = Some 1\<rparr>,
            \<lparr>TokeniserToken.type = ''eof'', lexeme = [], trivia = [], line = None, index = None\<rparr>]"
proof -
  have 1: "lastCharIndex tokenise_init < length (DQUOTE # ''abc'')"
    by (simp add: tokenise_init_def)
  have 2: "(DQUOTE # ''abc'') ! lastCharIndex tokenise_init = DQUOTE"
    by (simp add: tokenise_init_def)
  have 3: "re_string (drop (lastCharIndex tokenise_init) (DQUOTE # ''abc'')) = None"
    by code_simp
  have 4: "tokenise (DQUOTE # ''abc'') =
       Inr [\<lparr>TokeniserToken.type = ''other'', lexeme = [DQUOTE], trivia = [], line = Some 1, index = Some 0\<rparr>,
            \<lparr>TokeniserToken.type = ''identifier'', lexeme = ''abc'', trivia = [], line = Some 1, index = Some 1\<rparr>,
            \<lparr>TokeniserToken.type = ''eof'', lexeme = [], trivia = [], line = None, index = None\<rparr>]"
    by code_simp
  from tokenise_unterminated_string[OF 1 2 3] 1 2 3 4 show ?thesis
    by (simp add: tokenise_init_def)
qed

section \<open>The recursive analyses: facts and claims\<close>

lemma unique_set_dIRF [simp]: "unique (set_dictionaryIncludesRequiredField d x defs) = unique defs"
  by (simp add: set_dictionaryIncludesRequiredField_def)

lemma cache_set_dIRF [simp]:
  "Cache.dictionaryIncludesRequiredField (cache (set_dictionaryIncludesRequiredField d x defs)) =
   (Cache.dictionaryIncludesRequiredField (cache defs))(d \<mapsto> x)"
  by (simp add: set_dictionaryIncludesRequiredField_def)

lemma map_of_in_range: "map_of xs k = Some y \<Longrightarrow> y \<in> snd ` set xs"
  by (metis map_of_SomeD image_eqI snd_conv)

text \<open>
  A call of \<^verbatim>\<open>dictionaryIncludesRequiredField\<close> on a definition of \<^verbatim>\<open>unique\<close> ends, and
  it ends by returning where every definition of \<^verbatim>\<open>unique\<close> has \<^verbatim>\<open>members\<close>. The
  measure is the number of definitions of \<^verbatim>\<open>unique\<close> that have no cache entry.
\<close>
lemma dictionaryIncludesRequiredField_known_total:
  "dict \<in> snd ` set (unique defs) \<Longrightarrow>
   \<exists>outcome defs'. dictionaryIncludesRequiredField dict defs = Some (outcome, defs') \<and>
      ((\<forall>d\<in>snd ` set (unique defs). Definition.members d \<noteq> None) \<longrightarrow> (\<exists>r. outcome = Inr r))"
proof (induction "card (snd ` set (unique defs) - dom (Cache.dictionaryIncludesRequiredField (cache defs)))"
    arbitrary: dict defs rule: less_induct)
  case less
  let ?c = "Cache.dictionaryIncludesRequiredField (cache defs)"
  let ?defs1 = "set_dictionaryIncludesRequiredField dict None defs"
  define A where "A \<longleftrightarrow> (\<forall>d\<in>snd ` set (unique defs). Definition.members d \<noteq> None)"
  have own: "A \<longrightarrow> (\<exists>ms. Definition.members dict = Some ms)"
    using less.prems unfolding A_def by auto
  have "\<exists>outcome defs'. dictionaryIncludesRequiredField dict defs = Some (outcome, defs') \<and>
          (A \<longrightarrow> (\<exists>r. outcome = Inr r))"
  proof (cases "?c dict")
    case (Some cached)
    then show ?thesis by (subst dictionaryIncludesRequiredField.simps) simp
  next
    case None
    have fin: "finite (snd ` set (unique defs) - dom ?c)" by simp
    have "snd ` set (unique ?defs1) - dom (Cache.dictionaryIncludesRequiredField (cache ?defs1))
          \<subset> snd ` set (unique defs) - dom ?c"
      using None less.prems by auto
    then have dec: "card (snd ` set (unique ?defs1) - dom (Cache.dictionaryIncludesRequiredField (cache ?defs1)))
          < card (snd ` set (unique defs) - dom ?c)"
      using fin by (rule psubset_card_mono[rotated])
    have rec: "\<exists>outcome defs'. dictionaryIncludesRequiredField superdict ?defs1 = Some (outcome, defs') \<and>
                 (A \<longrightarrow> (\<exists>r. outcome = Inr r))"
      if "map_of (unique defs) inh = Some superdict" for inh superdict
      using less.hyps[OF dec, of superdict] map_of_in_range[OF that] unfolding A_def by simp
    show ?thesis
    proof (cases "inheritance dict")
      case n: None
      with None own show ?thesis
        by (subst dictionaryIncludesRequiredField.simps)
           (auto simp: some_required_def Let_def split: option.splits)
    next
      case (Some inh)
      note inh = Some
      show ?thesis
      proof (cases "inh = [] \<or> map_of (unique defs) inh = None")
        case True
        with None inh own show ?thesis
          by (subst dictionaryIncludesRequiredField.simps)
             (auto simp: some_required_def Let_def split: option.splits)
      next
        case False
        then obtain superdict where sd: "map_of (unique defs) inh = Some superdict" and ne: "inh \<noteq> []"
          by auto
        from rec[OF sd] obtain outcome defs2 where
          call: "dictionaryIncludesRequiredField superdict ?defs1 = Some (outcome, defs2)"
          and ret: "A \<longrightarrow> (\<exists>r. outcome = Inr r)" by blast
        with None inh sd ne own show ?thesis
          by (subst dictionaryIncludesRequiredField.simps)
             (auto simp: some_required_def Let_def split: option.splits sum.splits)
      qed
    qed
  qed
  then show ?case unfolding A_def .
qed

text \<open>The same of a call on any node: after its first step the calls are on definitions of \<^verbatim>\<open>unique\<close>.\<close>
lemma dictionaryIncludesRequiredField_total:
  "\<exists>outcome defs'. dictionaryIncludesRequiredField dict defs = Some (outcome, defs') \<and>
      ((\<forall>d\<in>snd ` set (unique defs). Definition.members d \<noteq> None) \<and> Definition.members dict \<noteq> None
         \<longrightarrow> (\<exists>r. outcome = Inr r))"
proof -
  let ?c = "Cache.dictionaryIncludesRequiredField (cache defs)"
  let ?defs1 = "set_dictionaryIncludesRequiredField dict None defs"
  define A where "A \<longleftrightarrow> (\<forall>d\<in>snd ` set (unique defs). Definition.members d \<noteq> None)"
  have "\<exists>outcome defs'. dictionaryIncludesRequiredField dict defs = Some (outcome, defs') \<and>
          (A \<and> Definition.members dict \<noteq> None \<longrightarrow> (\<exists>r. outcome = Inr r))"
  proof (cases "?c dict")
    case (Some cached)
    then show ?thesis by (subst dictionaryIncludesRequiredField.simps) simp
  next
    case None
    show ?thesis
    proof (cases "inheritance dict")
      case n: None
      with None show ?thesis
        by (subst dictionaryIncludesRequiredField.simps)
           (auto simp: some_required_def Let_def split: option.splits)
    next
      case (Some inh)
      note inh = Some
      show ?thesis
      proof (cases "inh = [] \<or> map_of (unique defs) inh = None")
        case True
        with None inh show ?thesis
          by (subst dictionaryIncludesRequiredField.simps)
             (auto simp: some_required_def Let_def split: option.splits)
      next
        case False
        then obtain superdict where sd: "map_of (unique defs) inh = Some superdict" and ne: "inh \<noteq> []"
          by auto
        have "superdict \<in> snd ` set (unique ?defs1)" using map_of_in_range[OF sd] by simp
        from dictionaryIncludesRequiredField_known_total[OF this]
        have "\<exists>outcome defs2. dictionaryIncludesRequiredField superdict ?defs1 = Some (outcome, defs2)
                \<and> (A \<longrightarrow> (\<exists>r. outcome = Inr r))" unfolding A_def by simp
        then obtain outcome defs2 where
          call: "dictionaryIncludesRequiredField superdict ?defs1 = Some (outcome, defs2)"
          and ret: "A \<longrightarrow> (\<exists>r. outcome = Inr r)" by blast
        with None inh sd ne show ?thesis
          by (subst dictionaryIncludesRequiredField.simps)
             (auto simp: some_required_def Let_def split: option.splits sum.splits)
      qed
    qed
  qed
  then show ?thesis unfolding A_def .
qed

lemma unique_set_tID [simp]: "unique (set_typedefIncludesDictionary d x defs) = unique defs"
  by (simp add: set_typedefIncludesDictionary_def)

lemma cache_set_tID [simp]:
  "Cache.typedefIncludesDictionary (cache (set_typedefIncludesDictionary d x defs)) =
   (Cache.typedefIncludesDictionary (cache defs))(d \<mapsto> x)"
  by (simp add: set_typedefIncludesDictionary_def)

lemma pending_mono:
  "unique d' = unique d \<Longrightarrow>
   dom (Cache.typedefIncludesDictionary (cache d)) \<subseteq> dom (Cache.typedefIncludesDictionary (cache d')) \<Longrightarrow>
   pending d' \<le> pending d"
  unfolding pending_def by (intro card_mono) auto

lemma pending_less:
  "def \<in> snd ` set (unique d) \<Longrightarrow> Cache.typedefIncludesDictionary (cache d) def = None \<Longrightarrow>
   pending (set_typedefIncludesDictionary def x d) < pending d"
  unfolding pending_def by (intro psubset_card_mono) auto

lemma returnsI:
  "includesDictionary call defs = Some (r, defs') \<Longrightarrow> unique defs' = unique defs \<Longrightarrow>
   dom (Cache.typedefIncludesDictionary (cache defs))
     \<subseteq> dom (Cache.typedefIncludesDictionary (cache defs')) \<Longrightarrow> returns call defs"
  unfolding returns_def by blast

lemma returns_subtypes_Cons:
  assumes 1: "returns (OfType sub False) defs"
    and 2: "\<And>defs1. unique defs1 = unique defs \<Longrightarrow>
              dom (Cache.typedefIncludesDictionary (cache defs))
                \<subseteq> dom (Cache.typedefIncludesDictionary (cache defs1)) \<Longrightarrow>
              returns (OfSubtypes rest) defs1"
  shows "returns (OfSubtypes (sub # rest)) defs"
proof -
  from 1 obtain r defs1 where a: "includesDictionary (OfType sub False) defs = Some (r, defs1)"
    "unique defs1 = unique defs"
    "dom (Cache.typedefIncludesDictionary (cache defs))
       \<subseteq> dom (Cache.typedefIncludesDictionary (cache defs1))"
    unfolding returns_def by blast
  show ?thesis
  proof (cases r)
    case (Some x)
    with a show ?thesis
      by (intro returnsI[where defs'=defs1 and
            r="if union sub then r else Some \<lparr>reference = sub, dictionary = dictionary x\<rparr>"])
         (subst includesDictionary.simps, simp_all)
  next
    case None
    from 2[OF a(2,3)] obtain r2 defs2 where b:
      "includesDictionary (OfSubtypes rest) defs1 = Some (r2, defs2)"
      "unique defs2 = unique defs1"
      "dom (Cache.typedefIncludesDictionary (cache defs1))
         \<subseteq> dom (Cache.typedefIncludesDictionary (cache defs2))"
      unfolding returns_def by blast
    with a None show ?thesis
      by (intro returnsI[where defs'=defs2 and r=r2])
         (subst includesDictionary.simps, auto)
  qed
qed

lemma returns_typedef:
  assumes u: "\<not> union t" and m: "map_of (unique defs) (IdlType.idlType t) = Some def"
    and ty: "Definition.type def = ''typedef''"
    and c: "Cache.typedefIncludesDictionary (cache defs) def = None"
    and 1: "returns (OfType (Definition.idlType def) False) (set_typedefIncludesDictionary def None defs)"
    and 2: "\<And>defs2. unique defs2 = unique defs \<Longrightarrow>
              dom (Cache.typedefIncludesDictionary (cache defs))
                \<subseteq> dom (Cache.typedefIncludesDictionary (cache defs2)) \<Longrightarrow>
              returns (OfSubtypes (subtype t)) defs2"
  shows "returns (OfType t b) defs"
proof -
  let ?d0 = "set_typedefIncludesDictionary def None defs"
  from 1 obtain r defs1 where a:
    "includesDictionary (OfType (Definition.idlType def) False) ?d0 = Some (r, defs1)"
    "unique defs1 = unique ?d0"
    "dom (Cache.typedefIncludesDictionary (cache ?d0))
       \<subseteq> dom (Cache.typedefIncludesDictionary (cache defs1))"
    unfolding returns_def by blast
  let ?d2 = "set_typedefIncludesDictionary def r defs1"
  have u2: "unique ?d2 = unique defs" using a(2) by simp
  have s2: "dom (Cache.typedefIncludesDictionary (cache defs))
       \<subseteq> dom (Cache.typedefIncludesDictionary (cache ?d2))"
    using a(3) by auto
  have nd: "Definition.type def \<noteq> ''dictionary''" using ty by simp
  show ?thesis
  proof (cases r)
    case (Some x)
    with a u m ty c u2 s2 show ?thesis
      by (intro returnsI[where defs'="?d2" and
            r="Some \<lparr>reference = t, dictionary = dictionary x\<rparr>"])
         (subst includesDictionary.simps, simp_all)
  next
    case None
    from 2[OF u2 s2] obtain r3 defs3 where b:
      "includesDictionary (OfSubtypes (subtype t)) ?d2 = Some (r3, defs3)"
      "unique defs3 = unique ?d2"
      "dom (Cache.typedefIncludesDictionary (cache ?d2))
         \<subseteq> dom (Cache.typedefIncludesDictionary (cache defs3))"
      unfolding returns_def by blast
    have "includesDictionary (OfType t b) defs = Some (r3, defs3)"
      using a(1) b(1) u m ty c None nd
      by (subst includesDictionary.simps) simp
    moreover have "unique defs3 = unique defs" using b(2) u2 by simp
    moreover have "dom (Cache.typedefIncludesDictionary (cache defs))
         \<subseteq> dom (Cache.typedefIncludesDictionary (cache defs3))"
      using s2 b(3) by blast
    ultimately show ?thesis by (rule returnsI)
  qed
qed

lemma returns_all: "returns call defs"
proof (induction "(pending defs, call_size call)" arbitrary: call defs
    rule: wf_induct_rule[OF wf_lex_prod[OF wf_less_than wf_less_than]])
  case 1
  have rec: "returns call' defs'"
    if "pending defs' < pending defs \<or> pending defs' \<le> pending defs \<and> call_size call' < call_size call"
    for call' defs'
  proof (rule 1)
    from that show "((pending defs', call_size call'), (pending defs, call_size call))
        \<in> less_than <*lex*> less_than" by auto
  qed
  have rec_mono: "returns call' defs'"
    if "unique defs' = unique defs"
      "dom (Cache.typedefIncludesDictionary (cache defs))
         \<subseteq> dom (Cache.typedefIncludesDictionary (cache defs'))"
      "call_size call' < call_size call"
    for call' defs'
    using rec[of defs' call'] pending_mono[OF that(1,2)] that(3) by simp
  show ?case
  proof (cases call)
    case (OfSubtypes ts)
    show ?thesis
    proof (cases ts)
      case Nil
      with OfSubtypes show ?thesis
        by (intro returnsI[where defs'=defs and r=None]) (subst includesDictionary.simps, simp_all)
    next
      case (Cons sub rest)
      show ?thesis unfolding OfSubtypes Cons
      proof (rule returns_subtypes_Cons)
        show "returns (OfType sub False) defs"
          by (rule rec) (simp add: OfSubtypes Cons)
      next
        fix defs1 :: Definitions assume "unique defs1 = unique defs"
          "dom (Cache.typedefIncludesDictionary (cache defs))
             \<subseteq> dom (Cache.typedefIncludesDictionary (cache defs1))"
        then show "returns (OfSubtypes rest) defs1"
          by (rule rec_mono) (simp add: OfSubtypes Cons)
      qed
    qed
  next
    case (OfType t b)
    have sub: "returns (OfSubtypes (subtype t)) defs2"
      if "unique defs2 = unique defs"
        "dom (Cache.typedefIncludesDictionary (cache defs))
           \<subseteq> dom (Cache.typedefIncludesDictionary (cache defs2))" for defs2
      using that by (rule rec_mono) (cases t, simp add: OfType)
    have sub0: "returns (OfSubtypes (subtype t)) defs" by (rule sub) simp_all
    then obtain r0 defs0 where s0: "includesDictionary (OfSubtypes (subtype t)) defs = Some (r0, defs0)"
      "unique defs0 = unique defs"
      "dom (Cache.typedefIncludesDictionary (cache defs))
         \<subseteq> dom (Cache.typedefIncludesDictionary (cache defs0))"
      unfolding returns_def by blast
    show ?thesis
    proof (cases "union t")
      case True
      with s0 show ?thesis unfolding OfType
        by (intro returnsI[where defs'=defs0 and r=r0]) (subst includesDictionary.simps, simp_all)
    next
      case False
      note u = False
      show ?thesis
      proof (cases "map_of (unique defs) (IdlType.idlType t)")
        case None
        with u show ?thesis unfolding OfType
          by (intro returnsI[where defs'=defs and r=None]) (subst includesDictionary.simps, simp_all)
      next
        case (Some def)
        show ?thesis
        proof (cases "Definition.type def = ''typedef''")
          case False
          show ?thesis
          proof (cases "Definition.type def = ''dictionary'' \<and> (b \<or> \<not> nullable t)")
            case True
            with u Some False show ?thesis unfolding OfType
              by (intro returnsI[where defs'=defs and r="Some \<lparr>reference = t, dictionary = def\<rparr>"])
                 (subst includesDictionary.simps, simp_all)
          next
            case nd: False
            with u Some False s0 show ?thesis unfolding OfType
              by (intro returnsI[where defs'=defs0 and r=r0])
                 (subst includesDictionary.simps, auto)
          qed
        next
          case True
          show ?thesis
          proof (cases "Cache.typedefIncludesDictionary (cache defs) def")
            case (Some cached)
            with u \<open>map_of (unique defs) (IdlType.idlType t) = Some def\<close> True show ?thesis
              unfolding OfType
              by (intro returnsI[where defs'=defs and r=cached])
                 (subst includesDictionary.simps, simp_all)
          next
            case None
            show ?thesis unfolding OfType
            proof (rule returns_typedef[OF u \<open>map_of (unique defs) (IdlType.idlType t) = Some def\<close> True None])
              show "returns (OfType (Definition.idlType def) False)
                      (set_typedefIncludesDictionary def None defs)"
                by (rule rec, rule disjI1, rule pending_less[OF map_of_in_range None])
                   (rule \<open>map_of (unique defs) (IdlType.idlType t) = Some def\<close>)
            qed (rule sub)
          qed
        qed
      qed
    qed
  qed
qed

lemma idlTypeIncludesDictionary_total:
  "\<exists>r defs'. idlTypeIncludesDictionary t defs b = Some (r, defs')"
  using returns_all[of "OfType t b" defs]
  unfolding returns_def idlTypeIncludesDictionary_def by blast

text \<open>
  C3. On every definition index and every cache, cyclic typedefs and cyclic dictionary
  inheritance included, both analyses end. \<^verbatim>\<open>idlTypeIncludesDictionary\<close> returns.
  \<^verbatim>\<open>dictionaryIncludesRequiredField\<close> returns or throws, and it returns where the node
  and every definition of \<^verbatim>\<open>unique\<close> have \<^verbatim>\<open>members\<close>; what is left is the
  \<^verbatim>\<open>TypeError\<close> of line 72 on a node without members. A call that meets a cache entry in
  the indeterminate state returns \<^verbatim>\<open>undefined\<close>, the answer "no dictionary found" or
  "no required field", at once: the definitions come back unchanged, so nothing was
  computed.
\<close>
theorem analyses_terminate:
  "(\<exists>r defs'. idlTypeIncludesDictionary t defs b = Some (r, defs')) \<and>
   (\<exists>outcome defs'. dictionaryIncludesRequiredField dict defs = Some (outcome, defs') \<and>
      ((\<forall>d\<in>snd ` set (unique defs). Definition.members d \<noteq> None) \<and> Definition.members dict \<noteq> None
         \<longrightarrow> (\<exists>r. outcome = Inr r))) \<and>
   (\<not> union t \<and> map_of (unique defs) (IdlType.idlType t) = Some def \<and>
    Definition.type def = ''typedef'' \<and>
    Cache.typedefIncludesDictionary (cache defs) def = Some None
      \<longrightarrow> idlTypeIncludesDictionary t defs b = Some (None, defs)) \<and>
   (Cache.dictionaryIncludesRequiredField (cache defs) dict = Some None
      \<longrightarrow> dictionaryIncludesRequiredField dict defs = Some (Inr None, defs))"
proof (intro conjI)
  show "\<exists>r defs'. idlTypeIncludesDictionary t defs b = Some (r, defs')"
    by (rule idlTypeIncludesDictionary_total)
  show "\<exists>outcome defs'. dictionaryIncludesRequiredField dict defs = Some (outcome, defs') \<and>
      ((\<forall>d\<in>snd ` set (unique defs). Definition.members d \<noteq> None) \<and> Definition.members dict \<noteq> None
         \<longrightarrow> (\<exists>r. outcome = Inr r))"
    by (rule dictionaryIncludesRequiredField_total)
  show "\<not> union t \<and> map_of (unique defs) (IdlType.idlType t) = Some def \<and>
    Definition.type def = ''typedef'' \<and>
    Cache.typedefIncludesDictionary (cache defs) def = Some None
      \<longrightarrow> idlTypeIncludesDictionary t defs b = Some (None, defs)"
    unfolding idlTypeIncludesDictionary_def
    by (subst includesDictionary.simps) simp
  show "Cache.dictionaryIncludesRequiredField (cache defs) dict = Some None
      \<longrightarrow> dictionaryIncludesRequiredField dict defs = Some (Inr None, defs)"
    by (subst dictionaryIncludesRequiredField.simps) simp
qed

text \<open>
  The theorem at two inputs. On the cyclic dictionaries \<^verbatim>\<open>X\<close> and \<^verbatim>\<open>Y\<close>, where every
  definition has members, the call on \<^verbatim>\<open>X\<close> returns \<^verbatim>\<open>false\<close>. On the example
  definitions with the entries of the typedef \<^verbatim>\<open>A\<close> and of \<^verbatim>\<open>X\<close> in the indeterminate
  state both analyses return \<^verbatim>\<open>undefined\<close> and leave the definitions as they are. The
  call on \<^verbatim>\<open>F\<close>, whose parent is a typedef, throws.
\<close>
theorem analyses_terminate_witness:
  "list_all (\<lambda>d. Definition.members d \<noteq> None) (map snd (unique dictionaries))
   \<and> Definition.members dictX \<noteq> None
   \<and> (\<exists>r defs'. dictionaryIncludesRequiredField dictX dictionaries = Some (Inr r, defs'))
   \<and> map_option fst (dictionaryIncludesRequiredField dictX dictionaries) = Some (Inr (Some False))
   \<and> map_option fst (idlTypeIncludesDictionary (named ''A'') exampleDefs False) = Some None
   \<and> map_option fst (dictionaryIncludesRequiredField dictF exampleDefs) = Some (Inl TypeError)
   \<and> \<not> union (named ''A'')
   \<and> map_of (unique (set_typedefIncludesDictionary typedefA None
               (set_dictionaryIncludesRequiredField dictX None exampleDefs)))
        (IdlType.idlType (named ''A'')) = Some typedefA
   \<and> Definition.type typedefA = ''typedef''
   \<and> Cache.typedefIncludesDictionary (cache (set_typedefIncludesDictionary typedefA None
         (set_dictionaryIncludesRequiredField dictX None exampleDefs))) typedefA = Some None
   \<and> Cache.dictionaryIncludesRequiredField (cache (set_typedefIncludesDictionary typedefA None
         (set_dictionaryIncludesRequiredField dictX None exampleDefs))) dictX = Some None
   \<and> idlTypeIncludesDictionary (named ''A'')
        (set_typedefIncludesDictionary typedefA None
          (set_dictionaryIncludesRequiredField dictX None exampleDefs)) False =
       Some (None, set_typedefIncludesDictionary typedefA None
          (set_dictionaryIncludesRequiredField dictX None exampleDefs))
   \<and> dictionaryIncludesRequiredField dictX
        (set_typedefIncludesDictionary typedefA None
          (set_dictionaryIncludesRequiredField dictX None exampleDefs)) =
       Some (Inr None, set_typedefIncludesDictionary typedefA None
          (set_dictionaryIncludesRequiredField dictX None exampleDefs))"
proof -
  let ?p = "set_typedefIncludesDictionary typedefA None
          (set_dictionaryIncludesRequiredField dictX None exampleDefs)"
  have a0: "list_all (\<lambda>d. Definition.members d \<noteq> None) (map snd (unique dictionaries))"
    by (simp add: dictionaries_def dictP_def dictD_def dictX_def dictY_def)
  then have a: "\<forall>d\<in>snd ` set (unique dictionaries). Definition.members d \<noteq> None"
    by (simp add: list_all_iff)
  have b: "Definition.members dictX \<noteq> None" by (simp add: dictX_def)
  have c: "map_option fst (dictionaryIncludesRequiredField dictX dictionaries) = Some (Inr (Some False))"
    by code_simp
  have 1: "map_option fst (idlTypeIncludesDictionary (named ''A'') exampleDefs False) = Some None"
    by code_simp
  have 2: "map_option fst (dictionaryIncludesRequiredField dictF exampleDefs) = Some (Inl TypeError)"
    by code_simp
  have 3: "\<not> union (named ''A'')" by (simp add: named_def)
  have 4: "map_of (unique ?p) (IdlType.idlType (named ''A'')) = Some typedefA"
    by (simp add: exampleDefs_def named_def)
  have 5: "Definition.type typedefA = ''typedef''" by (simp add: typedefA_def)
  have 6: "Cache.typedefIncludesDictionary (cache ?p) typedefA = Some None" by simp
  have 7: "Cache.dictionaryIncludesRequiredField (cache ?p) dictX = Some None"
    by (simp add: set_typedefIncludesDictionary_def)
  from analyses_terminate[of "named ''A''" dictionaries False dictX typedefA] a b
  have d: "\<exists>r defs'. dictionaryIncludesRequiredField dictX dictionaries = Some (Inr r, defs')"
    by blast
  from analyses_terminate[of "named ''A''" ?p False dictX typedefA] 3 4 5 6 7
  have e: "idlTypeIncludesDictionary (named ''A'') ?p False = Some (None, ?p)
           \<and> dictionaryIncludesRequiredField dictX ?p = Some (Inr None, ?p)"
    by blast
  from a0 b c d 1 2 3 4 5 6 7 e show ?thesis by blast
qed

text \<open>
  C2 fails on the code. \<^verbatim>\<open>dictionary P { required long x; }; dictionary D : P { };\<close>:
  the first call on \<^verbatim>\<open>D\<close> returns \<^verbatim>\<open>true\<close> from line 69 and leaves the entry of
  \<^verbatim>\<open>D\<close> indeterminate, the second call returns that entry, \<^verbatim>\<open>undefined\<close>.
  \<^verbatim>\<open>typedef D T;\<close>: the first call on a type \<^verbatim>\<open>T\<close> returns the reference \<^verbatim>\<open>T\<close>,
  the second the cached inner result, whose reference is the type \<^verbatim>\<open>D\<close> of the typedef.
\<close>
theorem repeated_calls_differ:
  "twice (dictionaryIncludesRequiredField dictD) exampleDefs = Some (Inr (Some True), Inr None)
   \<and> map_option (\<lambda>(r1, r2). (map_option reference r1, map_option reference r2))
        (twice (\<lambda>defs. idlTypeIncludesDictionary (named ''T'') defs False) exampleDefs) =
       Some (Some (named ''T''), Some (named ''D''))"
  by code_simp

text \<open>
  Where the cache has no entry for the dictionary yet, an unknown parent makes the call
  return \<^verbatim>\<open>true\<close>, whatever the members are; the entry is left indeterminate.
\<close>
lemma unknown_parent_first_call:
  assumes "Cache.dictionaryIncludesRequiredField (cache defs) dict = None"
    and "inheritance dict = Some inh" and "inh \<noteq> []"
    and "map_of (unique defs) inh = None"
  shows "dictionaryIncludesRequiredField dict defs =
           Some (Inr (Some True), set_dictionaryIncludesRequiredField dict None defs)"
  using assms by (subst dictionaryIncludesRequiredField.simps) (simp add: Let_def)

text \<open>
  C9 fails on the code from the second call on. \<^verbatim>\<open>dictionary E : Missing { };\<close> with no
  definition \<^verbatim>\<open>Missing\<close>: the first call returns \<^verbatim>\<open>true\<close>, the second \<^verbatim>\<open>undefined\<close>.
\<close>
theorem unknown_parent_second_call:
  "inheritance dictE = Some ''Missing''
   \<and> map_of (unique exampleDefs) ''Missing'' = None
   \<and> twice (dictionaryIncludesRequiredField dictE) exampleDefs = Some (Inr (Some True), Inr None)"
  by code_simp

section \<open>The attribute parser: claims\<close>

text \<open>
  C4. Whatever the type parser is: when \<^verbatim>\<open>Attribute.parse\<close> has read the keyword
  \<^verbatim>\<open>attribute\<close> and the parsed type has the generic \<^verbatim>\<open>sequence\<close> or \<^verbatim>\<open>record\<close>, it
  raises the syntax error with the message \<^verbatim>\<open>Attributes cannot accept sequence types\<close>
  (or \<^verbatim>\<open>record\<close>); and no attribute node that \<^verbatim>\<open>Attribute.parse\<close> returns has such a
  type.
\<close>
theorem attribute_rejects_sequence_and_record:
  "(Attribute_parse_head specialOpt noInherit readonly tokeniser = Inr (Some toks, afterHead) \<and>
    type_with_extended_attributes P ''attribute-type'' afterHead = Inr (Some idlT, afterType) \<and>
    (generic idlT = ''sequence'' \<or> generic idlT = ''record'')
      \<longrightarrow> Attribute_parse P specialOpt noInherit readonly tokeniser =
            Inl (Tokeniser_error afterType
                  (''Attributes cannot accept '' @ generic idlT @ '' types''))) \<and>
   (Attribute_parse P specialOpt noInherit readonly tokeniser = Inr (Some a, afterParse) 
      \<longrightarrow> generic (Attribute.idlType a) \<noteq> ''sequence'' \<and>
          generic (Attribute.idlType a) \<noteq> ''record'')"
proof (intro conjI impI)
  assume "Attribute_parse_head specialOpt noInherit readonly tokeniser = Inr (Some toks, afterHead) \<and>
    type_with_extended_attributes P ''attribute-type'' afterHead = Inr (Some idlT, afterType) \<and>
    (generic idlT = ''sequence'' \<or> generic idlT = ''record'')"
  then show "Attribute_parse P specialOpt noInherit readonly tokeniser =
            Inl (Tokeniser_error afterType
                  (''Attributes cannot accept '' @ generic idlT @ '' types''))"
    by (auto simp: Attribute_parse_def Attribute_parse_type_def)
next
  assume a: "Attribute_parse P specialOpt noInherit readonly tokeniser = Inr (Some a, afterParse)"
  then obtain toks afterHead where
    "Attribute_parse_type P toks afterHead = Inr (Some a, afterParse)"
    by (auto simp: Attribute_parse_def split: sum.splits option.splits)
  then have "\<not> (generic (Attribute.idlType a) = ''sequence'' \<or> generic (Attribute.idlType a) = ''record'')"
    unfolding Attribute_parse_type_def
    by (auto split: sum.splits option.splits if_splits prod.splits)
  then show "generic (Attribute.idlType a) \<noteq> ''sequence''" "generic (Attribute.idlType a) \<noteq> ''record''"
    by blast+
qed

theorem attribute_rejects_sequence_and_record_witness:
  "Attribute_parse_head None False False example_tokeniser =
     Inr (Some [(''base'', \<lparr>TokeniserToken.type = ''attribute'', lexeme = ''attribute'', trivia = [],
                           line = Some 1, index = Some 0\<rparr>)],
          example_tokeniser\<lparr>position := 1\<rparr>)
   \<and> type_with_extended_attributes example_productions ''attribute-type''
        (example_tokeniser\<lparr>position := 1\<rparr>) =
       Inr (Some (IdlType False [] False ''sequence'' [IdlType False ''long'' False [] [] None]
                   (Some \<lparr>tokens = [], items = []\<rparr>)),
            example_tokeniser\<lparr>position := 5\<rparr>)
   \<and> Attribute_parse example_productions None False False example_tokeniser =
       Inl (WebIDLParseError 5 ''Attributes cannot accept sequence types'')"
proof -
  have 1: "Attribute_parse_head None False False example_tokeniser =
     Inr (Some [(''base'', \<lparr>TokeniserToken.type = ''attribute'', lexeme = ''attribute'', trivia = [],
                           line = Some 1, index = Some 0\<rparr>)],
          example_tokeniser\<lparr>position := 1\<rparr>)"
    by code_simp
  have 2: "type_with_extended_attributes example_productions ''attribute-type''
        (example_tokeniser\<lparr>position := 1\<rparr>) =
       Inr (Some (IdlType False [] False ''sequence'' [IdlType False ''long'' False [] [] None]
                   (Some \<lparr>tokens = [], items = []\<rparr>)),
            example_tokeniser\<lparr>position := 5\<rparr>)"
    by code_simp
  have 3: "Tokeniser_error (example_tokeniser\<lparr>position := 5\<rparr>)
             (''Attributes cannot accept '' @ ''sequence'' @ '' types'') =
           WebIDLParseError 5 ''Attributes cannot accept sequence types''"
    by (simp add: Tokeniser_error_def)
  let ?T = "IdlType False [] False ''sequence'' [IdlType False ''long'' False [] [] None]
                   (Some \<lparr>tokens = [], items = []\<rparr>)"
  have 4: "generic ?T = ''sequence''" by simp
  from attribute_rejects_sequence_and_record[where specialOpt=None and noInherit=False
      and readonly=False and tokeniser=example_tokeniser and P=example_productions
      and toks="[(''base'', \<lparr>TokeniserToken.type = ''attribute'', lexeme = ''attribute'',
                    trivia = [], line = Some 1, index = Some 0\<rparr>)]"
      and afterHead="example_tokeniser\<lparr>position := 1\<rparr>" and idlT="?T"
      and afterType="example_tokeniser\<lparr>position := 5\<rparr>"] 1 2 4
  have "Attribute_parse example_productions None False False example_tokeniser =
            Inl (Tokeniser_error (example_tokeniser\<lparr>position := 5\<rparr>)
                  (''Attributes cannot accept '' @ generic ?T @ '' types''))"
    by blast
  with 1 2 3 show ?thesis by simp
qed

section \<open>Validation of operations and interfaces: claims\<close>

lemma validate_each_rule:
  assumes "\<And>defs a. \<forall>d\<in>set (fst (v defs a)). ruleName d \<noteq> r"
  shows "\<forall>d\<in>set (fst (validate_each v defs xs)). ruleName d \<noteq> r"
proof (induction xs arbitrary: defs)
  case Nil
  show ?case by simp
next
  case (Cons x xs)
  obtain d defs1 where 1: "v defs x = (d, defs1)" by (cases "v defs x")
  obtain ds defs2 where 2: "validate_each v defs1 xs = (ds, defs2)"
    by (cases "validate_each v defs1 xs")
  from assms[of defs x] 1 have "\<forall>e\<in>set d. ruleName e \<noteq> r" by simp
  moreover from Cons[of defs1] 2 have "\<forall>e\<in>set ds. ruleName e \<noteq> r" by simp
  ultimately show ?case using 1 2 by auto
qed

text \<open>
  C7. Let the validators of the type and of the arguments yield no diagnostic of kind
  \<^verbatim>\<open>incomplete-op\<close>. Then \<^verbatim>\<open>Operation.validate\<close> yields a diagnostic of that kind if
  and only if the operation has no name and its \<^verbatim>\<open>special\<close> is empty or \<^verbatim>\<open>static\<close>;
  the diagnostic is bound to the token \<^verbatim>\<open>open\<close>, the parenthesis; and a getter, setter,
  deleter or stringifier yields none, named or not.
\<close>
theorem operation_incomplete_op:
  assumes tv: "\<And>defs t. \<forall>d\<in>set (fst (Type_validate defs t)). ruleName d \<noteq> ''incomplete-op''"
    and av: "\<And>defs a. \<forall>d\<in>set (fst (Argument_validate defs a)). ruleName d \<noteq> ''incomplete-op''"
  shows "((\<exists>d\<in>set (fst (Operation_validate Type_validate Argument_validate defs op)).
             ruleName d = ''incomplete-op'')
          \<longleftrightarrow> Operation_name op = [] \<and>
              (special (tokens op) = [] \<or> special (tokens op) = ''static''))
       \<and> (\<forall>d\<in>set (fst (Operation_validate Type_validate Argument_validate defs op)).
             ruleName d = ''incomplete-op'' \<longrightarrow> token d = role (tokens op) ''open'')
       \<and> (special (tokens op) \<in> {''getter'', ''setter'', ''deleter'', ''stringifier''}
            \<longrightarrow> (\<forall>d\<in>set (fst (Operation_validate Type_validate Argument_validate defs op)).
                   ruleName d \<noteq> ''incomplete-op''))"
proof -
  obtain d2 defs1 where 2: "(case Operation.idlType op of None \<Rightarrow> ([], defs)
                         | Some t \<Rightarrow> Type_validate defs t) = (d2, defs1)"
    by (cases "case Operation.idlType op of None \<Rightarrow> ([], defs) | Some t \<Rightarrow> Type_validate defs t")
  obtain d3 defs2 where 3: "validate_each Argument_validate defs1 (arguments op) = (d3, defs2)"
    by (cases "validate_each Argument_validate defs1 (arguments op)")
  have n2: "\<forall>d\<in>set d2. ruleName d \<noteq> ''incomplete-op''"
  proof (cases "Operation.idlType op")
    case None
    with 2 show ?thesis by auto
  next
    case (Some t)
    with 2 tv[of defs t] show ?thesis by simp
  qed
  have n3: "\<forall>d\<in>set d3. ruleName d \<noteq> ''incomplete-op''"
    using validate_each_rule[of Argument_validate "''incomplete-op''" defs1 "arguments op", OF av] 3
    by simp
  let ?c = "Operation_name op = [] \<and> (special (tokens op) = [] \<or> special (tokens op) = ''static'')"
  have out: "fst (Operation_validate Type_validate Argument_validate defs op) =
      (if ?c then [\<lparr>token = role (tokens op) ''open'', ruleName = ''incomplete-op'',
                    message = incomplete_op_message, autofix = None\<rparr>] else []) @ d2 @ d3"
    using 2 3 by (auto simp: Operation_validate_def Let_def)
  show ?thesis unfolding out using n2 n3 by auto
qed

theorem operation_incomplete_op_witness:
  "fst (Operation_validate no_diagnostics no_diagnostics exampleDefs example_nameless) =
     [\<lparr>token = Some (example_token ''('' ''('' 4), ruleName = ''incomplete-op'',
       message = incomplete_op_message, autofix = None\<rparr>]
   \<and> Operation_name example_nameless = [] \<and> special (tokens example_nameless) = []
   \<and> role (tokens example_nameless) ''open'' = Some (example_token ''('' ''('' 4)
   \<and> Operation_name example_getter = [] \<and> special (tokens example_getter) = ''getter''
   \<and> fst (Operation_validate no_diagnostics no_diagnostics exampleDefs example_getter) = []"
proof -
  have h: "\<forall>d\<in>set (fst (no_diagnostics defs x)). ruleName d \<noteq> ''incomplete-op''"
    for defs :: Definitions and x :: 'x
    by (simp add: no_diagnostics_def)
  have 1: "fst (Operation_validate no_diagnostics no_diagnostics exampleDefs example_nameless) =
     [\<lparr>token = Some (example_token ''('' ''('' 4), ruleName = ''incomplete-op'',
       message = incomplete_op_message, autofix = None\<rparr>]"
    by code_simp
  have 2: "Operation_name example_nameless = []" "special (tokens example_nameless) = []"
     "role (tokens example_nameless) ''open'' = Some (example_token ''('' ''('' 4)"
     "Operation_name example_getter = []" "special (tokens example_getter) = ''getter''"
    by code_simp+
  have 3: "fst (Operation_validate no_diagnostics no_diagnostics exampleDefs example_getter) = []"
    by code_simp
  from operation_incomplete_op[of no_diagnostics no_diagnostics exampleDefs example_nameless, OF h h]
    operation_incomplete_op[of no_diagnostics no_diagnostics exampleDefs example_getter, OF h h]
    1 2 3
  show ?thesis by simp
qed

lemma role_assign_same [simp]: "role (assign r (Some t) dict) r = Some t"
  by (simp add: role_def assign_def update_conv')

lemma Interface_extAttrs_tokens_update [simp]:
  "Interface.extAttrs ((iface::Interface)\<lparr>tokens := toks\<rparr>) = Interface.extAttrs iface"
  by (cases iface) simp

text \<open>
  C8. Let the validators that \<^verbatim>\<open>Interface.validate\<close> calls yield no diagnostic of kind
  \<^verbatim>\<open>require-exposed\<close>. Then \<^verbatim>\<open>Interface.validate\<close> yields a diagnostic of that kind if
  and only if the interface is not partial and none of its extended attributes is named
  \<^verbatim>\<open>Exposed\<close> or \<^verbatim>\<open>NoInterfaceObject\<close>. The diagnostic is bound to the name token and
  carries the autofix \<^verbatim>\<open>autofixAddExposedWindow\<close>. Called on an interface with no
  extended attribute, the autofix gives it the block that \<^verbatim>\<open>ExtendedAttributes.parse\<close>
  reads from \<^verbatim>\<open>[Exposed=Window]\<close>, its opening token with the trivia of the interface
  keyword; called on one that has some, it puts the attribute that
  \<^verbatim>\<open>SimpleExtendedAttribute.parse\<close> reads from \<^verbatim>\<open>Exposed=Window,\<close> in front of them.
\<close>
theorem interface_require_exposed:
  assumes ev: "\<And>defs e. \<forall>d\<in>set (fst (ExtendedAttributes_validate V defs e)).
                 ruleName d \<noteq> ''require-exposed''"
    and cv: "\<And>defs i. \<forall>d\<in>set (fst (Container_validate V defs i)).
                 ruleName d \<noteq> ''require-exposed''"
    and dv: "\<And>defs i. \<forall>d\<in>set (fst (checkInterfaceMemberDuplication V defs i)).
                 ruleName d \<noteq> ''require-exposed''"
  shows "((\<exists>d\<in>set (fst (Interface_validate V defs iface)). ruleName d = ''require-exposed'')
          \<longleftrightarrow> \<not> partial iface \<and>
              (\<forall>e\<in>set (items (Interface.extAttrs iface)).
                 name e \<noteq> ''Exposed'' \<and> name e \<noteq> ''NoInterfaceObject''))
       \<and> (\<forall>d\<in>set (fst (Interface_validate V defs iface)).
             ruleName d = ''require-exposed'' \<longrightarrow>
             autofix d = Some AutofixAddExposedWindow \<and> token d = role (tokens iface) ''name'')
       \<and> (items (Interface.extAttrs iface) = [] \<and>
           new_Tokeniser ''[Exposed=Window]'' = Inr tokeniser \<and>
           ExtendedAttributes_parse P tokeniser = Inr (parsed, afterBlock) \<and>
           role (tokens iface) ''base'' = Some baseToken \<and>
           role (tokens parsed) ''open'' = Some openToken
           \<longrightarrow> (\<exists>fixed. autofixAddExposedWindow P iface = Inr fixed \<and>
                  items (Interface.extAttrs fixed) = items parsed \<and>
                  role (tokens (Interface.extAttrs fixed)) ''open'' =
                    Some (openToken\<lparr>trivia := trivia baseToken\<rparr>)))
       \<and> (items (Interface.extAttrs iface) = existing # others \<and>
           new_Tokeniser ''Exposed=Window,'' = Inr tokeniser' \<and>
           SimpleExtendedAttribute_parse P tokeniser' = Inr (Some exposed, afterAttribute) \<and>
           role (tokens existing) ''name'' = Some nameToken
           \<longrightarrow> (\<exists>fixed first second.
                  autofixAddExposedWindow P iface = Inr fixed \<and>
                  items (Interface.extAttrs fixed) = first # second # others \<and>
                  name first = name exposed \<and> name second = name existing))"
proof -
  let ?attrs = "items (Interface.extAttrs iface)"
  obtain d1 defs1 where 1: "ExtendedAttributes_validate V defs (Interface.extAttrs iface) = (d1, defs1)"
    by (cases "ExtendedAttributes_validate V defs (Interface.extAttrs iface)")
  obtain d5 defs2 where 5: "Container_validate V defs1 iface = (d5, defs2)"
    by (cases "Container_validate V defs1 iface")
  obtain d6 defs3 where 6: "(if \<not> partial iface then checkInterfaceMemberDuplication V defs2 iface
                         else ([], defs2)) = (d6, defs3)"
    by (cases "if \<not> partial iface then checkInterfaceMemberDuplication V defs2 iface else ([], defs2)")
  have n1: "\<forall>d\<in>set d1. ruleName d \<noteq> ''require-exposed''"
    using ev[of defs "Interface.extAttrs iface"] 1 by simp
  have n5: "\<forall>d\<in>set d5. ruleName d \<noteq> ''require-exposed''"
    using cv[of defs1 iface] 5 by simp
  have n6: "\<forall>d\<in>set d6. ruleName d \<noteq> ''require-exposed''"
    using dv[of defs2 iface] 6 by (cases "partial iface") auto
  let ?c = "\<not> partial iface \<and>
              (\<forall>e\<in>set ?attrs. name e \<noteq> ''Exposed'' \<and> name e \<noteq> ''NoInterfaceObject'')"
  let ?d3 = "map (\<lambda>c. \<lparr>token = role (tokens c) ''name'', ruleName = ''constructor-member'',
                          message = constructor_member_message,
                          autofix = Some (AutofixConstructor c)\<rparr>)
               (filter (\<lambda>extAttr. name extAttr = ''Constructor'') ?attrs)"
  let ?d4 = "(if list_ex (\<lambda>extAttr. name extAttr = ''Global'') ?attrs then
                  map (\<lambda>named. \<lparr>token = role (tokens named) ''name'',
                                  ruleName = ''no-constructible-global'',
                                  message = ''Interfaces marked as `[Global]` cannot have named constructors.'',
                                  autofix = None\<rparr>)
                      (filter (\<lambda>extAttr. name extAttr = ''NamedConstructor'') ?attrs)
                  @ map (\<lambda>named. \<lparr>token = role (tokens named) ''base'',
                                    ruleName = ''no-constructible-global'',
                                    message = ''Interfaces marked as `[Global]` cannot have constructors.'',
                                    autofix = None\<rparr>)
                        (filter (\<lambda>member. Member.type member = ''constructor'')
                           (Interface.members iface))
                else [])"
  have n3: "\<forall>d\<in>set ?d3. ruleName d \<noteq> ''require-exposed''" by auto
  have n4: "\<forall>d\<in>set ?d4. ruleName d \<noteq> ''require-exposed''" by auto
  have out: "fst (Interface_validate V defs iface) =
      d1 @ (if ?c then [\<lparr>token = role (tokens iface) ''name'', ruleName = ''require-exposed'',
                       message = require_exposed_message,
                       autofix = Some AutofixAddExposedWindow\<rparr>] else []) @ ?d3 @ ?d4 @ d5 @ d6"
    using 1 5 6 unfolding Interface_validate_def Let_def
    by (auto simp: list_all_iff split: prod.splits)
  have a: "(\<exists>d\<in>set (fst (Interface_validate V defs iface)). ruleName d = ''require-exposed'') \<longleftrightarrow> ?c"
    unfolding out using n1 n3 n4 n5 n6 by (cases ?c) auto
  have b: "\<forall>d\<in>set (fst (Interface_validate V defs iface)).
             ruleName d = ''require-exposed'' \<longrightarrow>
             autofix d = Some AutofixAddExposedWindow \<and> token d = role (tokens iface) ''name''"
    unfolding out using n1 n3 n4 n5 n6 by (cases ?c) auto
  have c: "items (Interface.extAttrs iface) = [] \<and>
           new_Tokeniser ''[Exposed=Window]'' = Inr tokeniser \<and>
           ExtendedAttributes_parse P tokeniser = Inr (parsed, afterBlock) \<and>
           role (tokens iface) ''base'' = Some baseToken \<and>
           role (tokens parsed) ''open'' = Some openToken
           \<longrightarrow> (\<exists>fixed. autofixAddExposedWindow P iface = Inr fixed \<and>
                  items (Interface.extAttrs fixed) = items parsed \<and>
                  role (tokens (Interface.extAttrs fixed)) ''open'' =
                    Some (openToken\<lparr>trivia := trivia baseToken\<rparr>))"
    by (auto simp: autofixAddExposedWindow_def)
  have d: "items (Interface.extAttrs iface) = existing # others \<and>
           new_Tokeniser ''Exposed=Window,'' = Inr tokeniser' \<and>
           SimpleExtendedAttribute_parse P tokeniser' = Inr (Some exposed, afterAttribute) \<and>
           role (tokens existing) ''name'' = Some nameToken
           \<longrightarrow> (\<exists>fixed first second.
                  autofixAddExposedWindow P iface = Inr fixed \<and>
                  items (Interface.extAttrs fixed) = first # second # others \<and>
                  name first = name exposed \<and> name second = name existing)"
    by (auto simp: autofixAddExposedWindow_def Let_def split: prod.splits)
  from a b c d show ?thesis by blast
qed

theorem interface_require_exposed_witness:
  "fst (Interface_validate example_validators exampleDefs example_interface) =
     [\<lparr>token = Some (example_token ''identifier'' ''Foo'' 1), ruleName = ''require-exposed'',
       message = require_exposed_message, autofix = Some AutofixAddExposedWindow\<rparr>]
   \<and> \<not> partial example_interface \<and> items (Interface.extAttrs example_interface) = []
   \<and> partial example_partial
   \<and> fst (Interface_validate example_validators exampleDefs example_partial) = []
   \<and> (case new_Tokeniser ''[Exposed=Window]'' of
         Inr tokeniser \<Rightarrow>
           (case ExtendedAttributes_parse example_productions tokeniser of
              Inr (parsed, afterBlock) \<Rightarrow>
                role (tokens parsed) ''open'' \<noteq> None \<and> map name (items parsed) = [''Exposed'']
            | Inl e \<Rightarrow> False)
       | Inl e \<Rightarrow> False)
   \<and> role (tokens example_interface) ''base'' \<noteq> None
   \<and> map_sum id (\<lambda>fixed. map name (items (Interface.extAttrs fixed)))
         (autofixAddExposedWindow example_productions example_interface) = Inr [''Exposed'']
   \<and> map_sum id (\<lambda>fixed. map name (items (Interface.extAttrs fixed)))
         (autofixAddExposedWindow example_productions example_global) = Inr [''Exposed'', ''Global'']"
proof -
  have h: "\<forall>d\<in>set (fst (no_diagnostics defs x)). ruleName d \<noteq> ''require-exposed''"
    for defs :: Definitions and x :: 'x
    by (simp add: no_diagnostics_def)
  have v: "ExtendedAttributes_validate example_validators = no_diagnostics"
    "Container_validate example_validators = no_diagnostics"
    "checkInterfaceMemberDuplication example_validators = no_diagnostics"
    by (simp_all add: example_validators_def)
  have 1: "fst (Interface_validate example_validators exampleDefs example_interface) =
     [\<lparr>token = Some (example_token ''identifier'' ''Foo'' 1), ruleName = ''require-exposed'',
       message = require_exposed_message, autofix = Some AutofixAddExposedWindow\<rparr>]"
    by code_simp
  have 2: "\<not> partial example_interface" "items (Interface.extAttrs example_interface) = []"
    "partial example_partial"
    by code_simp+
  have 3: "fst (Interface_validate example_validators exampleDefs example_partial) = []"
    by code_simp
  have 4: "(case new_Tokeniser ''[Exposed=Window]'' of
         Inr tokeniser \<Rightarrow>
           (case ExtendedAttributes_parse example_productions tokeniser of
              Inr (parsed, afterBlock) \<Rightarrow>
                role (tokens parsed) ''open'' \<noteq> None \<and> map name (items parsed) = [''Exposed'']
            | Inl e \<Rightarrow> False)
       | Inl e \<Rightarrow> False)"
    by code_simp
  have 5: "role (tokens example_interface) ''base'' \<noteq> None" by code_simp
  from 4 obtain tokeniser parsed afterBlock openToken where p:
    "new_Tokeniser ''[Exposed=Window]'' = Inr tokeniser"
    "ExtendedAttributes_parse example_productions tokeniser = Inr (parsed, afterBlock)"
    "role (tokens parsed) ''open'' = Some openToken" "map name (items parsed) = [''Exposed'']"
    by (auto split: sum.splits prod.splits)
  from 5 obtain baseToken where b: "role (tokens example_interface) ''base'' = Some baseToken"
    by auto
  note t = interface_require_exposed[where V=example_validators and defs=exampleDefs
      and iface=example_interface and P=example_productions and tokeniser=tokeniser
      and parsed=parsed and afterBlock=afterBlock and baseToken=baseToken
      and openToken=openToken, unfolded v, OF h h h]
  from t 2 p b obtain fixed where f:
    "autofixAddExposedWindow example_productions example_interface = Inr fixed"
    "items (Interface.extAttrs fixed) = items parsed"
    by blast
  have 6: "map_sum id (\<lambda>fixed. map name (items (Interface.extAttrs fixed)))
         (autofixAddExposedWindow example_productions example_interface) = Inr [''Exposed'']"
    using f p(4) by simp
  have 7: "map_sum id (\<lambda>fixed. map name (items (Interface.extAttrs fixed)))
         (autofixAddExposedWindow example_productions example_global) = Inr [''Exposed'', ''Global'']"
    by code_simp
  from 1 2 3 4 5 6 7 show ?thesis by simp
qed

end
